theory Spec2Isabelle
  imports Main "HOL-Library.Sublist" "HOL-Library.AList"
begin

section \<open>JavaScript strings and the literals of the source\<close>

text \<open>
  A JavaScript string is modelled as a \<^typ>\<open>string\<close>: the list of the bytes of its UTF-8
  encoding. The literals of the source that are written in Hangul are given by their bytes,
  with their code points beside them. Equality, emptiness (the truth value of a string),
  substring search and splitting at an ASCII character give the same answers on the UTF-8
  bytes as on the characters.
\<close>

definition ENTRY :: string where
  \<comment> \<open>code points U+C785 U+CC28\<close>
  "ENTRY =
     [CHR 0xEC, CHR 0x9E, CHR 0x85, CHR 0xEC, CHR 0xB0, CHR 0xA8]"

definition EXIT :: string where
  \<comment> \<open>code points U+CD9C U+CC28\<close>
  "EXIT =
     [CHR 0xEC, CHR 0xB6, CHR 0x9C, CHR 0xEC, CHR 0xB0, CHR 0xA8]"

definition UNSPECIFIED :: string where
  \<comment> \<open>code points U+BBF8 U+C9C0 U+C815\<close>
  "UNSPECIFIED =
     [CHR 0xEB, CHR 0xAF, CHR 0xB8, CHR 0xEC, CHR 0xA7, CHR 0x80, CHR 0xEC, CHR 0xA0,
      CHR 0x95]"

definition NO_RESTORATION :: string where
  \<comment> \<open>code points U+C0C1 U+D488 U+D654 U+0020 U+C815 U+BCF4 U+0020 U+C5C6 U+C74C\<close>
  "NO_RESTORATION =
     [CHR 0xEC, CHR 0x83, CHR 0x81, CHR 0xED, CHR 0x92, CHR 0x88, CHR 0xED, CHR 0x99,
      CHR 0x94, CHR 0x20, CHR 0xEC, CHR 0xA0, CHR 0x95, CHR 0xEB, CHR 0xB3, CHR 0xB4,
      CHR 0x20, CHR 0xEC, CHR 0x97, CHR 0x86, CHR 0xEC, CHR 0x9D, CHR 0x8C]"

definition UNKNOWN_TEXT :: string where
  \<comment> \<open>code points U+C54C U+0020 U+C218 U+0020 U+C5C6 U+C74C\<close>
  "UNKNOWN_TEXT =
     [CHR 0xEC, CHR 0x95, CHR 0x8C, CHR 0x20, CHR 0xEC, CHR 0x88, CHR 0x98, CHR 0x20,
      CHR 0xEC, CHR 0x97, CHR 0x86, CHR 0xEC, CHR 0x9D, CHR 0x8C]"

definition INSPECTION_NG :: string where
  \<comment> \<open>code points U+AC80 U+C218 U+0020 U+004E U+0047\<close>
  "INSPECTION_NG =
     [CHR 0xEA, CHR 0xB2, CHR 0x80, CHR 0xEC, CHR 0x88, CHR 0x98, CHR 0x20, CHR 0x4E,
      CHR 0x47]"

definition ETC :: string where
  \<comment> \<open>code points U+AE30 U+D0C0\<close>
  "ETC =
     [CHR 0xEA, CHR 0xB8, CHR 0xB0, CHR 0xED, CHR 0x83, CHR 0x80]"

text \<open>\<open>s || null\<close> on a string: the empty string is the only falsy string.\<close>

definition or_null :: "string \<Rightarrow> string option" where
  "or_null s = (if s = [] then None else Some s)"

text \<open>A thrown JavaScript \<open>Error\<close>, with its message.\<close>

datatype error = Error string

section \<open>Status taxonomy (src/src/cpm-database.js)\<close>

text \<open>
  The table \<open>RESTORATION_STATUS\<close> of the source: the status codes of the new system (the
  first thirteen) and of the old one (the last ten), each with its label.
\<close>

definition RESTORATION_STATUS :: "(string \<times> string) list" where
  "RESTORATION_STATUS = [
    (''RECEPTION_COMPLETED'',
      [CHR 0xEC, CHR 0xA0, CHR 0x91, CHR 0xEC, CHR 0x88, CHR 0x98, CHR 0xEC, CHR 0x99,
       CHR 0x84, CHR 0xEB, CHR 0xA3, CHR 0x8C]),
    (''INBOUND_PENDING'',
      [CHR 0xEC, CHR 0x9E, CHR 0x85, CHR 0xEA, CHR 0xB3, CHR 0xA0, CHR 0xEB, CHR 0x8C,
       CHR 0x80, CHR 0xEA, CHR 0xB8, CHR 0xB0]),
    (''INBOUND_COMPLETED'',
      [CHR 0xEC, CHR 0x9E, CHR 0x85, CHR 0xEA, CHR 0xB3, CHR 0xA0, CHR 0xEC, CHR 0x99,
       CHR 0x84, CHR 0xEB, CHR 0xA3, CHR 0x8C]),
    (''INBOUND_INSPECTION_PENDING'',
      [CHR 0xEC, CHR 0x9E, CHR 0x85, CHR 0xEA, CHR 0xB3, CHR 0xA0, CHR 0xEA, CHR 0xB2,
       CHR 0x80, CHR 0xEC, CHR 0x88, CHR 0x98, CHR 0xEB, CHR 0x8C, CHR 0x80, CHR 0xEA,
       CHR 0xB8, CHR 0xB0]),
    (''INBOUND_INSPECTION_COMPLETED'',
      [CHR 0xEC, CHR 0x9E, CHR 0x85, CHR 0xEA, CHR 0xB3, CHR 0xA0, CHR 0xEA, CHR 0xB2,
       CHR 0x80, CHR 0xEC, CHR 0x88, CHR 0x98, CHR 0xEC, CHR 0x99, CHR 0x84, CHR 0xEB,
       CHR 0xA3, CHR 0x8C]),
    (''WORK_PENDING'',
      [CHR 0xEC, CHR 0x9E, CHR 0x91, CHR 0xEC, CHR 0x97, CHR 0x85, CHR 0xEB, CHR 0x8C,
       CHR 0x80, CHR 0xEA, CHR 0xB8, CHR 0xB0]),
    (''WORKING'',
      [CHR 0xEC, CHR 0x9E, CHR 0x91, CHR 0xEC, CHR 0x97, CHR 0x85, CHR 0xEC, CHR 0xA4,
       CHR 0x91]),
    (''WORK_COMPLETED'',
      [CHR 0xEC, CHR 0x9E, CHR 0x91, CHR 0xEC, CHR 0x97, CHR 0x85, CHR 0xEC, CHR 0x99,
       CHR 0x84, CHR 0xEB, CHR 0xA3, CHR 0x8C]),
    (''OUTBOUND_INSPECTION_COMPLETED'',
      [CHR 0xEC, CHR 0xB6, CHR 0x9C, CHR 0xEA, CHR 0xB3, CHR 0xA0, CHR 0xEA, CHR 0xB2,
       CHR 0x80, CHR 0xEC, CHR 0x88, CHR 0x98, CHR 0xEC, CHR 0x99, CHR 0x84, CHR 0xEB,
       CHR 0xA3, CHR 0x8C]),
    (''OUTBOUND_IDLE'',
      [CHR 0xEC, CHR 0xB6, CHR 0x9C, CHR 0xEA, CHR 0xB3, CHR 0xA0, CHR 0xEC, CHR 0x9A,
       CHR 0x94, CHR 0xEC, CHR 0xB2, CHR 0xAD]),
    (''OUTBOUND_PENDING'',
      [CHR 0xEC, CHR 0xB6, CHR 0x9C, CHR 0xEA, CHR 0xB3, CHR 0xA0, CHR 0xEB, CHR 0x8C,
       CHR 0x80, CHR 0xEA, CHR 0xB8, CHR 0xB0]),
    (''OUTBOUND_COMPLETED'',
      [CHR 0xEC, CHR 0xB6, CHR 0x9C, CHR 0xEA, CHR 0xB3, CHR 0xA0, CHR 0xEC, CHR 0x99,
       CHR 0x84, CHR 0xEB, CHR 0xA3, CHR 0x8C]),
    (''SERVICE_COMPLETED'',
      [CHR 0xEC, CHR 0x84, CHR 0x9C, CHR 0xEB, CHR 0xB9, CHR 0x84, CHR 0xEC, CHR 0x8A,
       CHR 0xA4, CHR 0xEC, CHR 0x99, CHR 0x84, CHR 0xEB, CHR 0xA3, CHR 0x8C]),
    (''INPUT'',
      [CHR 0xEC, CHR 0x8B, CHR 0xA0, CHR 0xEC, CHR 0xB2, CHR 0xAD, CHR 0xEC, CHR 0xA0,
       CHR 0x91, CHR 0xEC, CHR 0x88, CHR 0x98]),
    (''PICKUPING'',
      [CHR 0xED, CHR 0x94, CHR 0xBD, CHR 0xEC, CHR 0x97, CHR 0x85, CHR 0xEC, CHR 0xA4,
       CHR 0x91]),
    (''PICKUPOK'',
      [CHR 0xED, CHR 0x94, CHR 0xBD, CHR 0xEC, CHR 0x97, CHR 0x85, CHR 0xEC, CHR 0x99,
       CHR 0x84, CHR 0xEB, CHR 0xA3, CHR 0x8C]),
    (''IN'',
      [CHR 0xEC, CHR 0x9E, CHR 0x85, CHR 0xEA, CHR 0xB3, CHR 0xA0]),
    (''CHECK'',
      [CHR 0xEA, CHR 0xB2, CHR 0x80, CHR 0xEC, CHR 0x88, CHR 0x98, CHR 0xEC, CHR 0x99,
       CHR 0x84, CHR 0xEB, CHR 0xA3, CHR 0x8C]),
    (''COMPLETE'',
      [CHR 0xEC, CHR 0x9E, CHR 0x91, CHR 0xEC, CHR 0x97, CHR 0x85, CHR 0xEC, CHR 0x99,
       CHR 0x84, CHR 0xEB, CHR 0xA3, CHR 0x8C]),
    (''OUTREADY'',
      [CHR 0xEC, CHR 0xB6, CHR 0x9C, CHR 0xEA, CHR 0xB3, CHR 0xA0, CHR 0xEB, CHR 0x8C,
       CHR 0x80, CHR 0xEA, CHR 0xB8, CHR 0xB0]),
    (''HOMESERVICE'',
      [CHR 0xED, CHR 0x99, CHR 0x88, CHR 0xEC, CHR 0x84, CHR 0x9C, CHR 0xEB, CHR 0xB9,
       CHR 0x84, CHR 0xEC, CHR 0x8A, CHR 0xA4]),
    (''UNPAY'',
      [CHR 0xEB, CHR 0xAF, CHR 0xB8, CHR 0xEA, CHR 0xB2, CHR 0xB0, CHR 0xEC, CHR 0xA0,
       CHR 0x9C]),
    (''FINISH'',
      [CHR 0xEC, CHR 0xA2, CHR 0x85, CHR 0xEB, CHR 0xA3, CHR 0x8C])]"

text \<open>
  A status code is the value of the column \<open>r_status_cd\<close>: a string or \<open>null\<close>, modelled
  as a \<^typ>\<open>string option\<close>. The test \<open>!statusCode\<close> holds for \<open>null\<close> and for the
  empty string.
\<close>

definition falsy :: "string option \<Rightarrow> bool" where
  "falsy v = (case v of None \<Rightarrow> True | Some s \<Rightarrow> s = [])"

text \<open>\<open>[...].includes(statusCode)\<close>: strict equality with one of the listed strings.\<close>

definition list_includes :: "string list \<Rightarrow> string option \<Rightarrow> bool" where
  "list_includes xs v = (case v of None \<Rightarrow> False | Some s \<Rightarrow> s \<in> set xs)"

definition categorizeStatus :: "string option \<Rightarrow> string" where
  "categorizeStatus statusCode =
     (if falsy statusCode then ''none''
      else if list_includes [''WORKING'', ''WORK_PENDING''] statusCode then ''working''
      else if list_includes [''WORK_COMPLETED'', ''OUTBOUND_INSPECTION_COMPLETED'', ''COMPLETE'']
                statusCode
        then ''completed''
      else if list_includes [''OUTBOUND_IDLE'', ''OUTBOUND_PENDING'', ''OUTREADY'', ''HOMESERVICE'',
                ''UNPAY''] statusCode
        then ''outbound_waiting''
      else if list_includes [''OUTBOUND_COMPLETED'', ''SERVICE_COMPLETED'', ''FINISH''] statusCode
        then ''done''
      else if list_includes [''RECEPTION_COMPLETED'', ''INBOUND_PENDING'', ''INBOUND_COMPLETED'',
                ''INBOUND_INSPECTION_PENDING'', ''INBOUND_INSPECTION_COMPLETED'', ''INPUT'',
                ''PICKUPING'', ''PICKUPOK'', ''IN'', ''CHECK''] statusCode
        then ''pending''
      else ''other'')"

definition CATEGORY_TEXT :: "(string \<times> string) list" where
  "CATEGORY_TEXT = [
    (''pending'',
      [CHR 0xEC, CHR 0x9E, CHR 0x85, CHR 0xEA, CHR 0xB3, CHR 0xA0, CHR 0x2F, CHR 0xEB,
       CHR 0x8C, CHR 0x80, CHR 0xEA, CHR 0xB8, CHR 0xB0]),
    (''working'',
      [CHR 0xEC, CHR 0x9E, CHR 0x91, CHR 0xEC, CHR 0x97, CHR 0x85, CHR 0xEC, CHR 0xA4,
       CHR 0x91]),
    (''completed'',
      [CHR 0xEC, CHR 0x9E, CHR 0x91, CHR 0xEC, CHR 0x97, CHR 0x85, CHR 0xEC, CHR 0x99,
       CHR 0x84, CHR 0xEB, CHR 0xA3, CHR 0x8C]),
    (''outbound_waiting'',
      [CHR 0xEC, CHR 0xB6, CHR 0x9C, CHR 0xEA, CHR 0xB3, CHR 0xA0, CHR 0xEB, CHR 0x8C,
       CHR 0x80, CHR 0xEA, CHR 0xB8, CHR 0xB0]),
    (''done'',
      [CHR 0xEC, CHR 0xB6, CHR 0x9C, CHR 0xEA, CHR 0xB3, CHR 0xA0, CHR 0xEC, CHR 0x99,
       CHR 0x84, CHR 0xEB, CHR 0xA3, CHR 0x8C]),
    (''none'',
      [CHR 0xEC, CHR 0xA0, CHR 0x84, CHR 0xEC, CHR 0x82, CHR 0xB0, CHR 0x20, CHR 0xEB,
       CHR 0xAF, CHR 0xB8, CHR 0xEB, CHR 0x93, CHR 0xB1, CHR 0xEB, CHR 0xA1, CHR 0x9D]),
    (''other'',
      [CHR 0xEA, CHR 0xB8, CHR 0xB0, CHR 0xED, CHR 0x83, CHR 0x80])]"

text \<open>
  \<open>RESTORATION_STATUS[code] || code || unknown\<close> and \<open>CATEGORY_TEXT[category] || etc\<close>.
  Every label of the two tables is a non-empty string, so the first alternative is taken
  exactly when the key is in the table (the tables are plain objects too: a status code
  named like a property inherited from \<open>Object.prototype\<close> is outside this model of the
  two labels).
\<close>

definition getStatusText :: "string option \<Rightarrow> string" where
  "getStatusText statusCode =
     (case statusCode of
        None \<Rightarrow> UNKNOWN_TEXT
      | Some c \<Rightarrow>
          (case map_of RESTORATION_STATUS c of
             Some label \<Rightarrow> label
           | None \<Rightarrow> if c = [] then UNKNOWN_TEXT else c))"

definition category_text_of :: "string \<Rightarrow> string" where
  "category_text_of c =
     (case map_of CATEGORY_TEXT c of Some label \<Rightarrow> label | None \<Rightarrow> ETC)"

definition getCategoryText :: "string option \<Rightarrow> string" where
  "getCategoryText statusCode = category_text_of (categorizeStatus statusCode)"

section \<open>Event store (src/src/database.js)\<close>

text \<open>
  A movement as the crawler hands it to the store, and a row of the table
  \<open>vehicle_movements\<close>. The values of the column \<open>movement_time\<close> are kept abstract, of a
  linearly ordered type \<open>'t\<close>: they are compared by SQLite's own order on stored values
  (\<open>MAX\<close>, \<open>=\<close>, \<open>>\<close>, \<open>ORDER BY\<close>). \<open>raw_data\<close> holds the JSON text of the provider's
  record, identified with the record \<open>'r\<close> it encodes. The column \<open>created_at\<close> (the clock
  at insertion) is read by no function modelled here and is left out.
\<close>

record ('t, 'r) movement =
  plateNumber :: string
  movementType :: string
  movementTime :: 't
  location :: string
  cardType :: string
  rawData :: "'r option"

record ('t, 'r) row =
  row_id :: nat
  plate_number :: string
  movement_type :: string
  movement_time :: 't
  row_location :: "string option"
  card_type :: "string option"
  raw_data :: "'r option"

text \<open>
  The database: the rows in insertion order, and the AUTOINCREMENT counter (the row of
  \<open>sqlite_sequence\<close> for the table).
\<close>

record ('t, 'r) db =
  rows :: "('t, 'r) row list"
  seq :: nat

definition initializeDb :: "('t, 'r) db" where
  "initializeDb = \<lparr>rows = [], seq = 0\<rparr>"

text \<open>
  The statements that \<open>insertMovements\<close> sends to SQLite. Any of them can fail for a reason
  of the storage (disk full, database locked, I/O error): the oracle \<open>fault\<close> says, for the
  state in which a statement is run, whether it throws and with which message.
\<close>

datatype ('t, 'r) stmt = Begin | Insert "('t, 'r) movement" | Commit

type_synonym ('t, 'r) faults = "('t, 'r) db \<Rightarrow> ('t, 'r) stmt \<Rightarrow> string option"

definition no_fault :: "('t, 'r) faults" where
  "no_fault d s = None"

text \<open>\<open>UNIQUE(plate_number, movement_time, movement_type)\<close>.\<close>

definition row_key :: "('t, 'r) row \<Rightarrow> string \<times> 't \<times> string" where
  "row_key r = (plate_number r, movement_time r, movement_type r)"

definition movement_key :: "('t, 'r) movement \<Rightarrow> string \<times> 't \<times> string" where
  "movement_key m = (plateNumber m, movementTime m, movementType m)"

definition conflicts :: "('t, 'r) row list \<Rightarrow> ('t, 'r) movement \<Rightarrow> bool" where
  "conflicts rs m = (\<exists>r \<in> set rs. row_key r = movement_key m)"

text \<open>
  \<open>insert.run(...)\<close> of the prepared \<open>INSERT OR IGNORE\<close>: a row that conflicts with a stored
  one is skipped and \<open>changes\<close> is 0; otherwise the row is appended with the next id and
  \<open>changes\<close> is 1. SQLite takes the next id from the AUTOINCREMENT counter before it
  meets the conflict, so the counter advances for a skipped row too. The result is
  \<open>changes\<close>, or the error thrown. The bound values are
  \<open>m.location || null\<close>, \<open>m.cardType || null\<close> and the JSON text of \<open>m.rawData\<close> (or
  \<open>null\<close>).
\<close>

definition new_row :: "nat \<Rightarrow> ('t, 'r) movement \<Rightarrow> ('t, 'r) row" where
  "new_row i m =
     \<lparr>row_id = i, plate_number = plateNumber m, movement_type = movementType m,
      movement_time = movementTime m, row_location = or_null (location m),
      card_type = or_null (cardType m), raw_data = rawData m\<rparr>"

definition insert_run ::
  "('t, 'r) faults \<Rightarrow> ('t, 'r) movement \<Rightarrow> ('t, 'r) db \<Rightarrow> (error + nat) \<times> ('t, 'r) db" where
  "insert_run fault m d =
     (case fault d (Insert m) of
        Some msg \<Rightarrow> (Inl (Error msg), d)
      | None \<Rightarrow>
          if conflicts (rows d) m then (Inr 0, d\<lparr>seq := Suc (seq d)\<rparr>)
          else (Inr 1, d\<lparr>rows := rows d @ [new_row (Suc (seq d)) m], seq := Suc (seq d)\<rparr>))"

text \<open>The function given to \<open>transaction\<close>: the loop over the items, counting the new rows.\<close>

fun insertMany ::
  "('t, 'r) faults \<Rightarrow> ('t, 'r) movement list \<Rightarrow> nat \<Rightarrow> ('t, 'r) db \<Rightarrow>
     (error + nat) \<times> ('t, 'r) db" where
  "insertMany fault [] inserted d = (Inr inserted, d)"
| "insertMany fault (m # items) inserted d =
     (case insert_run fault m d of
        (Inl e, d') \<Rightarrow> (Inl e, d')
      | (Inr changes, d') \<Rightarrow>
          insertMany fault items (if changes > 0 then inserted + 1 else inserted) d')"

text \<open>
  \<open>db.transaction(fn)\<close> of better-sqlite3: BEGIN, run the function, COMMIT and return its
  value; when the function (or the COMMIT) throws, ROLLBACK to the state before BEGIN and
  throw the same error again.
\<close>

definition transaction ::
  "('t, 'r) faults \<Rightarrow> (('t, 'r) db \<Rightarrow> (error + 'a) \<times> ('t, 'r) db) \<Rightarrow> ('t, 'r) db \<Rightarrow>
     (error + 'a) \<times> ('t, 'r) db" where
  "transaction fault body d =
     (case fault d Begin of
        Some msg \<Rightarrow> (Inl (Error msg), d)
      | None \<Rightarrow>
          (case body d of
             (Inl e, d') \<Rightarrow> (Inl e, d)
           | (Inr v, d') \<Rightarrow>
               (case fault d' Commit of
                  Some msg \<Rightarrow> (Inl (Error msg), d)
                | None \<Rightarrow> (Inr v, d'))))"

definition insertMovements ::
  "('t, 'r) faults \<Rightarrow> ('t, 'r) movement list \<Rightarrow> ('t, 'r) db \<Rightarrow> (error + nat) \<times> ('t, 'r) db" where
  "insertMovements fault movements d = transaction fault (insertMany fault movements 0) d"

text \<open>
  The subquery \<open>latest\<close>: for every plate with an entry row, the greatest time of its entry
  rows (\<open>SELECT plate_number, MAX(movement_time) ... WHERE movement_type = entry GROUP BY
  plate_number\<close>).
\<close>

definition latest :: "('t::linorder, 'r) row list \<Rightarrow> (string \<times> 't) list" where
  "latest rs =
     (let entries = filter (\<lambda>r. movement_type r = ENTRY) rs
      in map (\<lambda>p. (p, Max (set (map movement_time (filter (\<lambda>r. plate_number r = p) entries)))))
           (remdups (map plate_number entries)))"

text \<open>
  The \<open>FROM ... INNER JOIN ... WHERE\<close> part that \<open>getParkedVehicles\<close>,
  \<open>getParkingCountByLocation\<close> and \<open>getStats\<close> repeat word for word: the rows \<open>v\<close> joined
  with \<open>latest\<close> on plate and time, that are entry rows, and for which no exit row of the
  same plate has a greater time.
\<close>

definition parked_rows :: "('t::linorder, 'r) row list \<Rightarrow> ('t, 'r) row list" where
  "parked_rows rs =
     filter (\<lambda>v. movement_type v = ENTRY \<and>
                 \<not> (\<exists>v2 \<in> set rs. plate_number v2 = plate_number v \<and> movement_type v2 = EXIT \<and>
                       movement_time v2 > movement_time v))
       [v. v \<leftarrow> rs, l \<leftarrow> latest rs, plate_number v = fst l \<and> movement_time v = snd l]"

text \<open>
  \<open>getParkedVehicles\<close>: the rows above, \<open>ORDER BY v.movement_time DESC\<close>. The statement
  selects the columns \<open>plate_number\<close>, \<open>movement_time\<close> (as \<open>entry_time\<close>), \<open>location\<close> and
  \<open>card_type\<close> of \<open>v\<close>, and \<open>parking_hours\<close>, a rounded floating-point function of the
  clock and of \<open>movement_time\<close>; the model returns the rows \<open>v\<close> themselves.
\<close>

definition getParkedVehicles :: "('t::linorder, 'r) row list \<Rightarrow> ('t, 'r) row list" where
  "getParkedVehicles rs = rev (sort_key movement_time (parked_rows rs))"

text \<open>
  \<open>getParkingCountByLocation\<close>: \<open>GROUP BY v.location\<close>, with \<open>COALESCE(v.location,
  unspecified)\<close> and \<open>COUNT( * )\<close> selected, \<open>ORDER BY count DESC\<close>.
\<close>

definition getParkingCountByLocation :: "('t::linorder, 'r) row list \<Rightarrow> (string \<times> nat) list" where
  "getParkingCountByLocation rs =
     (let vs = parked_rows rs
      in rev (sort_key snd
           (map (\<lambda>g. (case g of None \<Rightarrow> UNSPECIFIED | Some l \<Rightarrow> l,
                       length (filter (\<lambda>v. row_location v = g) vs)))
              (remdups (map row_location vs)))))"

text \<open>
  \<open>getStats\<close>. \<open>todayMovements\<close> counts the rows whose date is the local date of the clock:
  the predicate \<open>is_today\<close> stands for that test.
\<close>

record stats =
  totalMovements :: nat
  currentlyParked :: nat
  todayMovements :: nat

definition getStats :: "('t \<Rightarrow> bool) \<Rightarrow> ('t::linorder, 'r) row list \<Rightarrow> stats" where
  "getStats is_today rs =
     \<lparr>totalMovements = length rs,
      currentlyParked = length (parked_rows rs),
      todayMovements = length (filter (\<lambda>r. is_today (movement_time r)) rs)\<rparr>"


text \<open>
  The store after a history of calls of \<open>insertMovements\<close>, each with its batch and with
  the faults of the storage during it.
\<close>

fun store_after ::
  "(('t, 'r) faults \<times> ('t, 'r) movement list) list \<Rightarrow> ('t, 'r) db \<Rightarrow> ('t, 'r) db" where
  "store_after [] d = d"
| "store_after ((f, ms) # calls) d = store_after calls (snd (insertMovements f ms d))"

text \<open>
  The derivation of the spec, in the spec's words, to be compared with the query of the
  source: \<open>lastEntry\<close> is the greatest time of the entry events of a plate, and the plate
  is currently parked when \<open>lastEntry\<close> exists and no exit event of the plate has a greater
  time.
\<close>

definition spec_lastEntry :: "('t::linorder, 'r) row list \<Rightarrow> string \<Rightarrow> 't option" where
  "spec_lastEntry rs P =
     (let ts = map movement_time (filter (\<lambda>r. plate_number r = P \<and> movement_type r = ENTRY) rs)
      in if ts = [] then None else Some (Max (set ts)))"

definition spec_currently_parked :: "('t::linorder, 'r) row list \<Rightarrow> string \<Rightarrow> bool" where
  "spec_currently_parked rs P =
     (case spec_lastEntry rs P of
        None \<Rightarrow> False
      | Some t \<Rightarrow>
          \<not> (\<exists>x \<in> set rs. plate_number x = P \<and> movement_type x = EXIT \<and> movement_time x > t))"

text \<open>
  Two movements of one plate for the examples: an entry at hour 9 and an exit at hour 18
  (times as natural numbers).
\<close>

definition entry_9 :: "(nat, unit) movement" where
  "entry_9 = \<lparr>plateNumber = ''12A3456'', movementType = ENTRY, movementTime = 9, location = [],
     cardType = [], rawData = None\<rparr>"

definition exit_18 :: "(nat, unit) movement" where
  "exit_18 = \<lparr>plateNumber = ''12A3456'', movementType = EXIT, movementTime = 18, location = [],
     cardType = [], rawData = None\<rparr>"

text \<open>A storage on which the statement that inserts the exit above fails.\<close>

definition disk_full :: "(nat, unit) faults" where
  "disk_full d s = (if s = Insert exit_18 then Some ''disk full'' else None)"

section \<open>Status resolver (src/src/cpm-database.js)\<close>

text \<open>
  The tables of the product-status store that the resolver reads, with the columns it
  names. A nullable column is an \<open>option\<close>. The three tables of titles are read through a
  \<open>LEFT JOIN\<close> on their key, and are modelled as maps from the key to the (nullable) title.
  The comparison of strings in SQL is taken to be equality.
\<close>

record car =
  c_no :: nat
  c_carnum :: string
  c_del_yn :: string

record restoration =
  r_no :: nat
  r_c_no :: nat
  r_status_cd :: "string option"

record restoration_task =
  rt_no :: nat
  rt_r_no :: nat
  rt_status_cd :: "string option"
  outboundInspectionResult :: "string option"
  rt_cash_cd :: "string option"
  rt_wp_no :: "nat option"
  rt_wg_no :: "nat option"
  rt_w_no :: "nat option"

record cpm_db =
  car_table :: "car list"
  restoration_table :: "restoration list"
  restoration_task_table :: "restoration_task list"
  basic_work_part :: "nat \<rightharpoonup> string option"
  basic_work_group :: "nat \<rightharpoonup> string option"
  basic_work :: "nat \<rightharpoonup> string option"

text \<open>
  \<open>pool.execute\<close>: the \<open>n\<close>-th statement of a call either throws (the connection is down, the
  statement times out, ...) or gives its rows. The oracle \<open>fault\<close> says which.
\<close>

type_synonym lookup_faults = "nat \<Rightarrow> string option"

definition no_lookup_fault :: lookup_faults where
  "no_lookup_fault n = None"

definition pool_execute :: "lookup_faults \<Rightarrow> nat \<Rightarrow> 'a \<Rightarrow> error + 'a" where
  "pool_execute fault n result =
     (case fault n of Some msg \<Rightarrow> Inl (Error msg) | None \<Rightarrow> Inr result)"

text \<open>A line of \<open>console.error(label, error.message)\<close>.\<close>

type_synonym log = "(string \<times> string) list"

definition LOG_STATUS_LOOKUP :: string where
  \<comment> \<open>code points U+B2E4 U+C911 U+0020 U+CC28 U+B7C9 U+0020 U+C0C1 U+D488 U+D654 U+0020 U+C870 U+D68C U+0020 U+C624 U+B958 U+003A\<close>
  "LOG_STATUS_LOOKUP =
     [CHR 0xEB, CHR 0x8B, CHR 0xA4, CHR 0xEC, CHR 0xA4, CHR 0x91, CHR 0x20, CHR 0xEC,
      CHR 0xB0, CHR 0xA8, CHR 0xEB, CHR 0x9F, CHR 0x89, CHR 0x20, CHR 0xEC, CHR 0x83,
      CHR 0x81, CHR 0xED, CHR 0x92, CHR 0x88, CHR 0xED, CHR 0x99, CHR 0x94, CHR 0x20,
      CHR 0xEC, CHR 0xA1, CHR 0xB0, CHR 0xED, CHR 0x9A, CHR 0x8C, CHR 0x20, CHR 0xEC,
      CHR 0x98, CHR 0xA4, CHR 0xEB, CHR 0xA5, CHR 0x98, CHR 0x3A]"

definition LOG_CURRENT_TASKS :: string where
  \<comment> \<open>code points U+C791 U+C5C5 U+C911 U+0020 U+C791 U+C5C5 U+0020 U+C870 U+D68C U+0020 U+C624 U+B958 U+003A\<close>
  "LOG_CURRENT_TASKS =
     [CHR 0xEC, CHR 0x9E, CHR 0x91, CHR 0xEC, CHR 0x97, CHR 0x85, CHR 0xEC, CHR 0xA4,
      CHR 0x91, CHR 0x20, CHR 0xEC, CHR 0x9E, CHR 0x91, CHR 0xEC, CHR 0x97, CHR 0x85,
      CHR 0x20, CHR 0xEC, CHR 0xA1, CHR 0xB0, CHR 0xED, CHR 0x9A, CHR 0x8C, CHR 0x20,
      CHR 0xEC, CHR 0x98, CHR 0xA4, CHR 0xEB, CHR 0xA5, CHR 0x98, CHR 0x3A]"

definition LOG_TASK_STATISTICS :: string where
  \<comment> \<open>code points U+C791 U+C5C5 U+0020 U+D1B5 U+ACC4 U+0020 U+C870 U+D68C U+0020 U+C624 U+B958 U+003A\<close>
  "LOG_TASK_STATISTICS =
     [CHR 0xEC, CHR 0x9E, CHR 0x91, CHR 0xEC, CHR 0x97, CHR 0x85, CHR 0x20, CHR 0xED,
      CHR 0x86, CHR 0xB5, CHR 0xEA, CHR 0xB3, CHR 0x84, CHR 0x20, CHR 0xEC, CHR 0xA1,
      CHR 0xB0, CHR 0xED, CHR 0x9A, CHR 0x8C, CHR 0x20, CHR 0xEC, CHR 0x98, CHR 0xA4,
      CHR 0xEB, CHR 0xA5, CHR 0x98, CHR 0x3A]"

definition message :: "error \<Rightarrow> string" where
  "message e = (case e of Error msg \<Rightarrow> msg)"

text \<open>
  The first statement: the cars that are not deleted, whose plate is one of \<open>carNums\<close> and
  whose \<open>c_no\<close> is among the \<open>MAX(c_no)\<close> of the groups by plate of those cars.
\<close>

definition select_cars :: "car list \<Rightarrow> string list \<Rightarrow> car list" where
  "select_cars tbl carNums =
     (let live = filter (\<lambda>c. c_carnum c \<in> set carNums \<and> c_del_yn c = ''N'') tbl;
          maxes = map (\<lambda>p. Max (set (map c_no (filter (\<lambda>c. c_carnum c = p) live))))
                    (remdups (map c_carnum live))
      in filter (\<lambda>c. c_no c \<in> set maxes) live)"

text \<open>
  The second statement: the restorations of the cars found, whose \<open>r_no\<close> is among the
  \<open>MAX(r_no)\<close> of the groups by car.
\<close>

definition select_restorations :: "restoration list \<Rightarrow> nat list \<Rightarrow> restoration list" where
  "select_restorations tbl carNos =
     (let live = filter (\<lambda>r. r_c_no r \<in> set carNos) tbl;
          maxes = map (\<lambda>k. Max (set (map r_no (filter (\<lambda>r. r_c_no r = k) live))))
                    (remdups (map r_c_no live))
      in filter (\<lambda>r. r_no r \<in> set maxes) live)"

text \<open>
  The third statement: \<open>SELECT DISTINCT rt_r_no\<close> of the tasks of the restorations found
  that are flagged FAIL and are not deleted (\<open>rt_cash_cd IS NULL OR rt_cash_cd != DELETE\<close>).
\<close>

definition not_deleted :: "restoration_task \<Rightarrow> bool" where
  "not_deleted t = (rt_cash_cd t \<noteq> Some ''DELETE'')"

definition select_failed :: "restoration_task list \<Rightarrow> nat list \<Rightarrow> nat list" where
  "select_failed tbl rNos =
     remdups (map rt_r_no
       (filter (\<lambda>t. rt_r_no t \<in> set rNos \<and> outboundInspectionResult t = Some ''FAIL'' \<and>
                    not_deleted t) tbl))"

text \<open>The value of the result map for a plate.\<close>

record entry =
  statusCode :: "string option"
  statusText :: string
  category :: string
  categoryText :: string
  hasFail :: bool

text \<open>\<open>if (carNum)\<close> on the result of \<open>Map.get\<close>: a string that is not empty.\<close>

definition truthy :: "string option \<Rightarrow> bool" where
  "truthy v = (\<not> falsy v)"

text \<open>The loop that fills \<open>carNoToCarNum\<close>: a later car overrides an earlier one.\<close>

definition carNoToCarNum :: "car list \<Rightarrow> nat \<rightharpoonup> string" where
  "carNoToCarNum cars = foldl (\<lambda>m c. m(c_no c \<mapsto> c_carnum c)) Map.empty cars"

text \<open>The loop that fills \<open>rNos\<close> (and \<open>rNoToCarNum\<close>).\<close>

definition rNos_of :: "(nat \<rightharpoonup> string) \<Rightarrow> restoration list \<Rightarrow> nat list" where
  "rNos_of c2n restorations = map r_no (filter (\<lambda>r. truthy (c2n (r_c_no r))) restorations)"

definition rNoToCarNum :: "(nat \<rightharpoonup> string) \<Rightarrow> restoration list \<Rightarrow> nat \<rightharpoonup> string" where
  "rNoToCarNum c2n restorations =
     foldl (\<lambda>m r. if truthy (c2n (r_c_no r)) then m(r_no r \<mapsto> the (c2n (r_c_no r))) else m)
       Map.empty restorations"

text \<open>The entry built for a restoration, given the set \<open>failedRNos\<close>.\<close>

definition restoration_entry :: "restoration \<Rightarrow> nat list \<Rightarrow> entry" where
  "restoration_entry r failedRNos =
     (let fl = (r_no r \<in> set failedRNos);
          cat = categorizeStatus (r_status_cd r)
      in \<lparr>statusCode = r_status_cd r,
          statusText = getStatusText (r_status_cd r),
          category = cat,
          categoryText = (if fl then INSPECTION_NG else category_text_of cat),
          hasFail = fl\<rparr>)"

text \<open>The loop over the restorations that fills the result map.\<close>

definition add_entries ::
  "(nat \<rightharpoonup> string) \<Rightarrow> nat list \<Rightarrow> restoration list \<Rightarrow> (string \<rightharpoonup> entry) \<Rightarrow> string \<rightharpoonup> entry"
  where
  "add_entries c2n failedRNos restorations resultMap =
     foldl (\<lambda>m r. if truthy (c2n (r_c_no r))
                   then m(the (c2n (r_c_no r)) \<mapsto> restoration_entry r failedRNos) else m)
       resultMap restorations"

text \<open>The entry of a car that has no restoration, and the loop over the cars that adds it.\<close>

definition no_record_entry :: entry where
  "no_record_entry =
     \<lparr>statusCode = None, statusText = NO_RESTORATION, category = ''none'',
      categoryText = NO_RESTORATION, hasFail = False\<rparr>"

definition add_missing :: "car list \<Rightarrow> (string \<rightharpoonup> entry) \<Rightarrow> string \<rightharpoonup> entry" where
  "add_missing cars resultMap =
     foldl (\<lambda>m c. if m (c_carnum c) = None then m(c_carnum c \<mapsto> no_record_entry) else m)
       resultMap cars"

text \<open>
  The \<open>try\<close> block of \<open>getRestorationStatusForVehicles\<close>, as a function of the result map
  it mutates: it ends normally (also by one of its early \<open>return\<close>s) or by a throw, and
  gives the result map as it is then.
\<close>

definition status_try ::
  "lookup_faults \<Rightarrow> cpm_db \<Rightarrow> string list \<Rightarrow> (string \<rightharpoonup> entry) \<Rightarrow>
     (error + unit) \<times> (string \<rightharpoonup> entry)" where
  "status_try fault db carNums resultMap =
     (case pool_execute fault 1 (select_cars (car_table db) carNums) of
        Inl e \<Rightarrow> (Inl e, resultMap)
      | Inr cars \<Rightarrow>
          if cars = [] then (Inr (), resultMap)
          else
            let c2n = carNoToCarNum cars;
                carNos = map c_no cars
            in (case pool_execute fault 2 (select_restorations (restoration_table db) carNos) of
                  Inl e \<Rightarrow> (Inl e, resultMap)
                | Inr restorations \<Rightarrow>
                    let rNos = rNos_of c2n restorations
                    in (case (if rNos \<noteq> []
                              then pool_execute fault 3
                                     (select_failed (restoration_task_table db) rNos)
                              else Inr []) of
                          Inl e \<Rightarrow> (Inl e, resultMap)
                        | Inr failedRNos \<Rightarrow>
                            (Inr (),
                             add_missing cars
                               (add_entries c2n failedRNos restorations resultMap)))))"

text \<open>
  \<open>getRestorationStatusForVehicles\<close>: an empty list of plates gives the empty map at once;
  otherwise the \<open>try\<close> block runs, a throw is caught and logged, and the result map is
  returned. The result is the returned map with the lines logged, or the error with which
  the function itself would throw.
\<close>

definition getRestorationStatusForVehicles ::
  "lookup_faults \<Rightarrow> cpm_db \<Rightarrow> string list \<Rightarrow> error + ((string \<rightharpoonup> entry) \<times> log)" where
  "getRestorationStatusForVehicles fault db carNums =
     (if carNums = [] then Inr (Map.empty, [])
      else
        (case status_try fault db carNums Map.empty of
           (Inl e, resultMap) \<Rightarrow> Inr (resultMap, [(LOG_STATUS_LOOKUP, message e)])
         | (Inr u, resultMap) \<Rightarrow> Inr (resultMap, [])))"

text \<open>
  \<open>getCurrentTasksForVehicles\<close>. The third statement selects the tasks of the restorations
  found whose status is one of TASKING, ON\_QUEUE, DOING and WAIT and that are not deleted,
  with the titles joined to them.
\<close>

record task_summary =
  workPart :: "string option"
  workGroup :: "string option"
  workName :: "string option"

definition joined_title :: "(nat \<rightharpoonup> string option) \<Rightarrow> nat option \<Rightarrow> string option" where
  "joined_title tbl k =
     (case k of None \<Rightarrow> None | Some i \<Rightarrow> (case tbl i of None \<Rightarrow> None | Some title \<Rightarrow> title))"

definition active :: "restoration_task \<Rightarrow> bool" where
  "active t = list_includes [''TASKING'', ''ON_QUEUE'', ''DOING'', ''WAIT''] (rt_status_cd t)"

definition select_active_tasks :: "cpm_db \<Rightarrow> nat list \<Rightarrow> (nat \<times> task_summary) list" where
  "select_active_tasks db rNos =
     map (\<lambda>t. (rt_r_no t,
               \<lparr>workPart = joined_title (basic_work_part db) (rt_wp_no t),
                workGroup = joined_title (basic_work_group db) (rt_wg_no t),
                workName = joined_title (basic_work db) (rt_w_no t)\<rparr>))
       (filter (\<lambda>t. rt_r_no t \<in> set rNos \<and> active t \<and> not_deleted t)
          (restoration_task_table db))"

text \<open>The loop that pushes every task onto the list of its plate.\<close>

definition add_tasks ::
  "(nat \<rightharpoonup> string) \<Rightarrow> (nat \<times> task_summary) list \<Rightarrow> (string \<rightharpoonup> task_summary list) \<Rightarrow>
     string \<rightharpoonup> task_summary list" where
  "add_tasks r2n tasks resultMap =
     foldl (\<lambda>m (rNo, task).
              if truthy (r2n rNo)
              then m(the (r2n rNo) \<mapsto> (case m (the (r2n rNo)) of None \<Rightarrow> [] | Some l \<Rightarrow> l) @ [task])
              else m)
       resultMap tasks"

text \<open>
  The \<open>try\<close> block. The third statement is built with one placeholder for every element
  of \<open>rNos\<close>, with no test that there is one: with an empty \<open>rNos\<close> its text has an empty
  \<open>IN ()\<close>, which the server refuses.
\<close>

definition tasks_try ::
  "lookup_faults \<Rightarrow> cpm_db \<Rightarrow> string list \<Rightarrow> (string \<rightharpoonup> task_summary list) \<Rightarrow>
     (error + unit) \<times> (string \<rightharpoonup> task_summary list)" where
  "tasks_try fault db carNums resultMap =
     (case pool_execute fault 1 (select_cars (car_table db) carNums) of
        Inl e \<Rightarrow> (Inl e, resultMap)
      | Inr cars \<Rightarrow>
          if cars = [] then (Inr (), resultMap)
          else
            let c2n = carNoToCarNum cars;
                carNos = map c_no cars
            in (case pool_execute fault 2 (select_restorations (restoration_table db) carNos) of
                  Inl e \<Rightarrow> (Inl e, resultMap)
                | Inr restorations \<Rightarrow>
                    if restorations = [] then (Inr (), resultMap)
                    else
                      let r2n = rNoToCarNum c2n restorations;
                          rNos = rNos_of c2n restorations
                      in (case (if rNos = [] then Inl (Error ''ER_PARSE_ERROR'')
                                else pool_execute fault 3 (select_active_tasks db rNos)) of
                            Inl e \<Rightarrow> (Inl e, resultMap)
                          | Inr tasks \<Rightarrow> (Inr (), add_tasks r2n tasks resultMap))))"

definition getCurrentTasksForVehicles ::
  "lookup_faults \<Rightarrow> cpm_db \<Rightarrow> string list \<Rightarrow> error + ((string \<rightharpoonup> task_summary list) \<times> log)"
  where
  "getCurrentTasksForVehicles fault db carNums =
     (if carNums = [] then Inr (Map.empty, [])
      else
        (case tasks_try fault db carNums Map.empty of
           (Inl e, resultMap) \<Rightarrow> Inr (resultMap, [(LOG_CURRENT_TASKS, message e)])
         | (Inr u, resultMap) \<Rightarrow> Inr (resultMap, [])))"

text \<open>
  \<open>getTaskStatistics\<close>: the active tasks of the given restorations, counted by the title
  of their work part (\<open>GROUP BY wp.wp_title\<close>, \<open>ORDER BY count DESC\<close>), then an object with
  the count of every title, a missing or empty title under the label for the rest. The
  argument is \<open>null\<close> (\<open>None\<close>) or a list.
\<close>

definition select_task_counts :: "cpm_db \<Rightarrow> nat list \<Rightarrow> (string option \<times> nat) list" where
  "select_task_counts db rNos =
     (let titles = map (\<lambda>t. joined_title (basic_work_part db) (rt_wp_no t))
                     (filter (\<lambda>t. rt_r_no t \<in> set rNos \<and> active t \<and> not_deleted t)
                        (restoration_task_table db))
      in rev (sort_key snd (map (\<lambda>g. (g, length (filter (\<lambda>x. x = g) titles))) (remdups titles))))"

definition stats_of_rows :: "(string option \<times> nat) list \<Rightarrow> string \<rightharpoonup> nat" where
  "stats_of_rows result =
     foldl (\<lambda>m (name, cnt). m((if falsy name then ETC else the name) \<mapsto> cnt)) Map.empty result"

definition getTaskStatistics ::
  "lookup_faults \<Rightarrow> cpm_db \<Rightarrow> nat list option \<Rightarrow> error + ((string \<rightharpoonup> nat) \<times> log)" where
  "getTaskStatistics fault db rNos =
     (case (if rNos = None \<or> rNos = Some [] then Inr Map.empty
            else (case pool_execute fault 1 (select_task_counts db (the rNos)) of
                    Inl e \<Rightarrow> Inl e
                  | Inr result \<Rightarrow> Inr (stats_of_rows result))) of
        Inl e \<Rightarrow> Inr (Map.empty, [(LOG_TASK_STATISTICS, message e)])
      | Inr stats \<Rightarrow> Inr (stats, []))"

section \<open>Aggregate status report (src/src/server.js)\<close>

text \<open>
  The dashboard route. \<open>locationStats\<close> is an object keyed by location, whose values
  are objects with the seven counters below; it is modelled as an association list of
  its own properties, and its values as records.

  \<open>locationStats\<close> is a plain object, so \<open>locationStats[loc]\<close> also finds the
  properties that every object inherits from \<open>Object.prototype\<close>, listed below. For a
  location with such a name the test \<open>!locationStats[loc]\<close> fails (the inherited value
  is a function or an object), no counters are created, and the increments are written
  to the inherited value: \<open>locationStats\<close> gets no property of its own.
\<close>

definition inherited_property :: "string \<Rightarrow> bool" where
  "inherited_property k =
     (k \<in> set [''constructor'', ''__defineGetter__'', ''__defineSetter__'', ''hasOwnProperty'',
                ''__lookupGetter__'', ''__lookupSetter__'', ''isPrototypeOf'',
                ''propertyIsEnumerable'', ''toString'', ''valueOf'', ''__proto__'',
                ''toLocaleString''])"

record loc_stat =
  st_total :: nat
  st_working :: nat
  st_completed :: nat
  st_outbound_waiting :: nat
  st_pending :: nat
  st_done :: nat
  st_fail :: nat

definition zero_stat :: loc_stat where
  "zero_stat =
     \<lparr>st_total = 0, st_working = 0, st_completed = 0, st_outbound_waiting = 0, st_pending = 0,
      st_done = 0, st_fail = 0\<rparr>"

text \<open>
  \<open>if (locationStats[loc][category] !== undefined) locationStats[loc][category]++\<close>: the
  counter named by \<open>category\<close> is incremented when the object has one of that name.
\<close>

definition incr_key :: "string \<Rightarrow> loc_stat \<Rightarrow> loc_stat" where
  "incr_key k s =
     (if k = ''total'' then s\<lparr>st_total := st_total s + 1\<rparr>
      else if k = ''working'' then s\<lparr>st_working := st_working s + 1\<rparr>
      else if k = ''completed'' then s\<lparr>st_completed := st_completed s + 1\<rparr>
      else if k = ''outbound_waiting'' then s\<lparr>st_outbound_waiting := st_outbound_waiting s + 1\<rparr>
      else if k = ''pending'' then s\<lparr>st_pending := st_pending s + 1\<rparr>
      else if k = ''done'' then s\<lparr>st_done := st_done s + 1\<rparr>
      else if k = ''fail'' then s\<lparr>st_fail := st_fail s + 1\<rparr>
      else s)"

text \<open>\<open>vehicle.location || unspecified\<close>.\<close>

definition loc_of :: "('t, 'r) row \<Rightarrow> string" where
  "loc_of v = (if falsy (row_location v) then UNSPECIFIED else the (row_location v))"


text \<open>The body of the loop over the vehicles, and the loop.\<close>

definition locationStats_step ::
  "(string \<rightharpoonup> entry) \<Rightarrow> (string \<times> loc_stat) list \<Rightarrow> ('t, 'r) row \<Rightarrow> (string \<times> loc_stat) list"
  where
  "locationStats_step restorationMap locationStats vehicle =
     (let loc = loc_of vehicle
      in if inherited_property loc then locationStats
         else
           let s0 = (case map_of locationStats loc of None \<Rightarrow> zero_stat | Some s \<Rightarrow> s);
               s1 = s0\<lparr>st_total := st_total s0 + 1\<rparr>;
               s2 = (case restorationMap (plate_number vehicle) of
                       None \<Rightarrow> s1
                     | Some r \<Rightarrow>
                         if hasFail r then s1\<lparr>st_fail := st_fail s1 + 1\<rparr>
                         else incr_key (categorizeStatus (statusCode r)) s1)
           in AList.update loc s2 locationStats)"

definition locationStats ::
  "(string \<rightharpoonup> entry) \<Rightarrow> ('t, 'r) row list \<Rightarrow> (string \<times> loc_stat) list" where
  "locationStats restorationMap parkedVehicles =
     foldl (locationStats_step restorationMap) [] parkedVehicles"





section \<open>Notions of the spec used to state the claims\<close>

text \<open>
  The vehicle identity of a plate, in the spec's words: the most recent car record of the
  plate that is not deleted; and whether that identity has a status record.
\<close>

definition has_vehicle_identity :: "cpm_db \<Rightarrow> string \<Rightarrow> bool" where
  "has_vehicle_identity db p = (\<exists>c \<in> set (car_table db). c_carnum c = p \<and> c_del_yn c = ''N'')"

definition vehicle_identity :: "cpm_db \<Rightarrow> string \<Rightarrow> nat" where
  "vehicle_identity db p =
     Max (set (map c_no (filter (\<lambda>c. c_carnum c = p \<and> c_del_yn c = ''N'') (car_table db))))"

definition has_status_record :: "cpm_db \<Rightarrow> string \<Rightarrow> bool" where
  "has_status_record db p = (\<exists>r \<in> set (restoration_table db). r_c_no r = vehicle_identity db p)"








text \<open>
  Examples: a product-status store with one car and no restoration; a store with one
  car, whose restoration has no status code (\<open>null\<close>) and a task flagged FAIL; the same
  with the status code WORKING; and a store whose \<open>k\<close>-th statement fails.
\<close>

definition one_car_db :: cpm_db where
  "one_car_db =
     \<lparr>car_table = [\<lparr>c_no = 1, c_carnum = ''12A3456'', c_del_yn = ''N''\<rparr>],
      restoration_table = [], restoration_task_table = [],
      basic_work_part = Map.empty, basic_work_group = Map.empty, basic_work = Map.empty\<rparr>"

definition null_status_db :: cpm_db where
  "null_status_db =
     \<lparr>car_table = [\<lparr>c_no = 1, c_carnum = ''12A3456'', c_del_yn = ''N''\<rparr>],
      restoration_table = [\<lparr>r_no = 1, r_c_no = 1, r_status_cd = None\<rparr>],
      restoration_task_table =
        [\<lparr>rt_no = 1, rt_r_no = 1, rt_status_cd = None, outboundInspectionResult = Some ''FAIL'',
          rt_cash_cd = None, rt_wp_no = None, rt_wg_no = None, rt_w_no = None\<rparr>],
      basic_work_part = Map.empty, basic_work_group = Map.empty, basic_work = Map.empty\<rparr>"

definition working_fail_db :: cpm_db where
  "working_fail_db =
     null_status_db\<lparr>restoration_table := [\<lparr>r_no = 1, r_c_no = 1, r_status_cd = Some ''WORKING''\<rparr>]\<rparr>"

definition times_out :: "nat \<Rightarrow> lookup_faults" where
  "times_out k n = (if n = k then Some ''ETIMEDOUT'' else None)"

section \<open>Provider session client (src/src/crawler.js)\<close>

text \<open>
  A field of a record of the provider is a JSON value. The model has the strings, the
  integers, \<open>null\<close>, and \<open>undefined\<close> for a field that is absent; the other values
  (booleans, fractions, nested objects) are outside it. \<open>String(v)\<close> of an integer is its
  decimal numeral (as JavaScript writes every integer below \<open>10^21\<close>).
\<close>

datatype jsval = JUndefined | JNull | JNum int | JStr string

fun js_truthy :: "jsval \<Rightarrow> bool" where
  "js_truthy JUndefined = False"
| "js_truthy JNull = False"
| "js_truthy (JNum n) = (n \<noteq> 0)"
| "js_truthy (JStr s) = (s \<noteq> [])"

text \<open>\<open>a || b\<close>.\<close>

definition js_or :: "jsval \<Rightarrow> jsval \<Rightarrow> jsval" where
  "js_or a b = (if js_truthy a then a else b)"

fun digits :: "nat \<Rightarrow> string" where
  "digits n = (if n < 10 then [char_of (48 + n)] else digits (n div 10) @ [char_of (48 + n mod 10)])"

fun js_String :: "jsval \<Rightarrow> string" where
  "js_String JUndefined = ''undefined''"
| "js_String JNull = ''null''"
| "js_String (JNum n) = (if n < 0 then CHR ''-'' # digits (nat (- n)) else digits (nat n))"
| "js_String (JStr s) = s"

text \<open>\<open>hay.includes(needle)\<close>: the needle is a contiguous part of the string.\<close>

definition str_includes :: "string \<Rightarrow> string \<Rightarrow> bool" where
  "str_includes hay needle = sublist needle hay"

text \<open>
  \<open>toLowerCase\<close>: the letters A to Z are replaced by a to z. The other bytes are kept:
  outside ASCII, lower-casing produces no ASCII letter next to another one, so that the
  searches for \<open>in\<close> and \<open>out\<close> below give the same answer.
\<close>

definition toLowerCase :: "string \<Rightarrow> string" where
  "toLowerCase s =
     map (\<lambda>c. if 65 \<le> (of_char c :: nat) \<and> (of_char c :: nat) \<le> 90
               then char_of ((of_char c :: nat) + 32) else c) s"

definition UNKNOWN_TYPE :: string where
  \<comment> \<open>code points U+C54C U+C218 U+C5C6 U+C74C\<close>
  "UNKNOWN_TYPE =
     [CHR 0xEC, CHR 0x95, CHR 0x8C, CHR 0xEC, CHR 0x88, CHR 0x98, CHR 0xEC, CHR 0x97,
      CHR 0x86, CHR 0xEC, CHR 0x9D, CHR 0x8C]"

definition HANGUL_IP :: string where
  \<comment> \<open>code points U+C785\<close>
  "HANGUL_IP =
     [CHR 0xEC, CHR 0x9E, CHR 0x85]"

definition HANGUL_CHUL :: string where
  \<comment> \<open>code points U+CD9C\<close>
  "HANGUL_CHUL =
     [CHR 0xEC, CHR 0xB6, CHR 0x9C]"

definition parseMovementType :: "jsval \<Rightarrow> jsval" where
  "parseMovementType status =
     (let statusStr = js_String status
      in if statusStr = ''0'' then JStr ENTRY
         else if statusStr = ''1'' then JStr EXIT
         else if str_includes statusStr HANGUL_IP \<or> str_includes (toLowerCase statusStr) ''in''
           then JStr ENTRY
         else if str_includes statusStr HANGUL_CHUL \<or> str_includes (toLowerCase statusStr) ''out''
           then JStr EXIT
         else js_or status (JStr UNKNOWN_TYPE))"

text \<open>A record of the provider, with the fields that \<open>parseMovements\<close> reads.\<close>

record item =
  acPlate :: jsval
  iInOutStatus :: jsval
  dtTrnsDate :: jsval
  acEqpmName :: jsval
  iCardTypeNm :: jsval

text \<open>The movement object that \<open>parseMovements\<close> builds.\<close>

record js_movement =
  js_plateNumber :: jsval
  js_movementType :: jsval
  js_movementTime :: string
  js_location :: jsval
  js_cardType :: jsval
  js_rawData :: item

text \<open>
  The body of the loop of \<open>parseMovements\<close> for one item: the movement to push, nothing
  when the plate or the time is missing, or the error that the \<open>catch\<close> of the loop logs
  (a time that is a number has no method \<open>includes\<close>). The time is cut at its first dot.
\<close>

definition parse_item :: "item \<Rightarrow> error + js_movement option" where
  "parse_item it =
     (case js_or (dtTrnsDate it) (JStr []) of
        JStr s \<Rightarrow>
          (let movementTime = (if s \<noteq> [] \<and> CHR ''.'' \<in> set s
                               then takeWhile (\<lambda>c. c \<noteq> CHR ''.'') s else s);
               movement =
                 \<lparr>js_plateNumber = js_or (acPlate it) (JStr []),
                  js_movementType = parseMovementType (iInOutStatus it),
                  js_movementTime = movementTime,
                  js_location = js_or (acEqpmName it) (JStr []),
                  js_cardType = js_or (iCardTypeNm it) (JStr []),
                  js_rawData = it\<rparr>
           in if js_truthy (js_plateNumber movement) \<and> movementTime \<noteq> []
              then Inr (Some movement) else Inr None)
      | _ \<Rightarrow> Inl (Error ''movementTime.includes is not a function''))"

definition LOG_PARSE_ERROR :: string where
  \<comment> \<open>code points U+B370 U+C774 U+D130 U+0020 U+D30C U+C2F1 U+0020 U+C624 U+B958 U+003A\<close>
  "LOG_PARSE_ERROR =
     [CHR 0xEB, CHR 0x8D, CHR 0xB0, CHR 0xEC, CHR 0x9D, CHR 0xB4, CHR 0xED, CHR 0x84,
      CHR 0xB0, CHR 0x20, CHR 0xED, CHR 0x8C, CHR 0x8C, CHR 0xEC, CHR 0x8B, CHR 0xB1,
      CHR 0x20, CHR 0xEC, CHR 0x98, CHR 0xA4, CHR 0xEB, CHR 0xA5, CHR 0x98, CHR 0x3A]"

fun parse_items :: "item list \<Rightarrow> js_movement list \<times> log" where
  "parse_items [] = ([], [])"
| "parse_items (it # items) =
     (case parse_item it of
        Inl e \<Rightarrow> (fst (parse_items items), (LOG_PARSE_ERROR, message e) # snd (parse_items items))
      | Inr None \<Rightarrow> parse_items items
      | Inr (Some m) \<Rightarrow> (m # fst (parse_items items), snd (parse_items items)))"

text \<open>
  The shapes of the response that \<open>parseMovements\<close> accepts: an array, or an object
  with \<open>rows\<close>, \<open>list\<close> or \<open>data\<close> (an array or one record); a property is \<open>None\<close> when it
  is absent.
\<close>

datatype payload_data = DArray "item list" | DSingle item

datatype payload =
  PArray "item list"
  | PObject "item list option" "item list option" "payload_data option"

fun items_of :: "payload \<Rightarrow> item list" where
  "items_of (PArray xs) = xs"
| "items_of (PObject (Some rs) l d) = rs"
| "items_of (PObject None (Some l) d) = l"
| "items_of (PObject None None (Some (DArray xs))) = xs"
| "items_of (PObject None None (Some (DSingle x))) = [x]"
| "items_of (PObject None None None) = []"

definition parseMovements :: "payload \<Rightarrow> js_movement list \<times> log" where
  "parseMovements data = parse_items (items_of data)"

















text \<open>
  The values that \<open>insert.run\<close> binds for a movement of the crawler. The text that SQLite
  stores in a TEXT column for a bound number, and the value that it stores in the column
  \<open>movement_time\<close> for a bound string, are parameters.
\<close>

definition sql_text :: "(int \<Rightarrow> string) \<Rightarrow> jsval \<Rightarrow> string" where
  "sql_text num_text v = (case v of JStr s \<Rightarrow> s | JNum n \<Rightarrow> num_text n | _ \<Rightarrow> [])"

definition bound :: "(int \<Rightarrow> string) \<Rightarrow> (string \<Rightarrow> 't) \<Rightarrow> js_movement \<Rightarrow> ('t, item) movement" where
  "bound num_text time_value m =
     \<lparr>plateNumber = sql_text num_text (js_plateNumber m),
      movementType = sql_text num_text (js_movementType m),
      movementTime = time_value (js_movementTime m),
      location = (if js_truthy (js_location m) then sql_text num_text (js_location m) else []),
      cardType = (if js_truthy (js_cardType m) then sql_text num_text (js_cardType m) else []),
      rawData = Some (js_rawData m)\<rparr>"





text \<open>
  Notions used to state how a record with an unknown direction code is handled. A status
  is unrecognised when its string is neither \<open>0\<close> nor \<open>1\<close> and none of the four searches
  of \<open>parseMovementType\<close> finds its word in it; a row is directional when its movement
  type is the entry or the exit word.
\<close>

definition unrecognised :: "jsval \<Rightarrow> bool" where
  "unrecognised status =
     (let statusStr = js_String status
      in statusStr \<noteq> ''0'' \<and> statusStr \<noteq> ''1'' \<and>
         \<not> str_includes statusStr HANGUL_IP \<and> \<not> str_includes (toLowerCase statusStr) ''in'' \<and>
         \<not> str_includes statusStr HANGUL_CHUL \<and> \<not> str_includes (toLowerCase statusStr) ''out'')"

definition directional :: "('t, 'r) row \<Rightarrow> bool" where
  "directional r = (movement_type r = ENTRY \<or> movement_type r = EXIT)"

text \<open>
  An example of the two parameters of \<open>bound\<close>: a number stored as its decimal numeral
  followed by \<open>.0\<close>, and a time stored as the number that its bytes write in base 256
  (which orders texts of the same length as SQLite orders them). And a record of the
  provider with the direction code \<open>2\<close>, with the movement that \<open>parseMovements\<close> builds
  from it.
\<close>

definition decimal_text :: "int \<Rightarrow> string" where
  "decimal_text n = js_String (JNum n) @ ''.0''"

definition text_value :: "string \<Rightarrow> nat" where
  "text_value t = foldl (\<lambda>a c. a * 256 + of_char c) 0 t"

definition code_2 :: item where
  "code_2 =
     \<lparr>acPlate = JStr ''12GA3456'', iInOutStatus = JStr ''2'',
      dtTrnsDate = JStr ''2025-12-22 17:31:21.0'', acEqpmName = JStr ''RF IN LPR'',
      iCardTypeNm = JNull\<rparr>"

definition code_2_movement :: js_movement where
  "code_2_movement =
     \<lparr>js_plateNumber = JStr ''12GA3456'', js_movementType = JStr ''2'',
      js_movementTime = ''2025-12-22 17:31:21'', js_location = JStr ''RF IN LPR'',
      js_cardType = JStr [], js_rawData = code_2\<rparr>"

section \<open>Ingestion job (src/src/scheduler.js)\<close>

text \<open>
  \<open>runCrawlJob\<close> is an \<open>async\<close> function. JavaScript runs a call without interruption
  up to its next \<open>await\<close>, so the function is modelled by its segments between the
  \<open>await\<close>s, each an atomic step on the state of the module, and by the events that
  the event loop delivers: a trigger (the cron callback, the call at startup, a manual
  call), the settlement of the promise of \<open>fetchMovements\<close>, and the settlement of the
  promise of \<open>sendSlackNotification\<close>. A call that is suspended is a continuation in the
  list \<open>pending\<close>: at \<open>await fetchMovements\<close>, or at \<open>await sendSlackNotification\<close> (in the
  \<open>try\<close> block or in the \<open>catch\<close> block; both continue with the \<open>finally\<close> block).
\<close>

datatype pc = AwaitFetch | AwaitNotify

text \<open>
  The lines of the console, by their kind and their numbers, and the calls of
  \<open>sendSlackNotification\<close>: of success, with the numbers collected, stored and parked,
  or of failure, with the message of the error.
\<close>

datatype line =
  AlreadyRunning
  | Started
  | Collected nat
  | Stored nat
  | Status stats
  | Failed string

datatype notice = Success nat nat nat | Failure string

text \<open>
  The state: the flag \<open>isRunning\<close>, the suspended calls, the table, and three histories
  that the source does not keep: the number of calls of \<open>fetchMovements\<close>, the calls of
  \<open>sendSlackNotification\<close>, and the lines printed.
\<close>

record ('t, 'r) scheduler =
  isRunning :: bool
  pending :: "pc list"
  store :: "('t, 'r) db"
  fetches :: nat
  notices :: "notice list"
  lines :: "line list"

definition idle :: "('t, 'r) db \<Rightarrow> ('t, 'r) scheduler" where
  "idle d = \<lparr>isRunning = False, pending = [], store = d, fetches = 0, notices = [], lines = []\<rparr>"

definition print :: "line \<Rightarrow> ('t, 'r) scheduler \<Rightarrow> ('t, 'r) scheduler" where
  "print l s = s\<lparr>lines := lines s @ [l]\<rparr>"

text \<open>
  \<open>await sendSlackNotification(...)\<close> by the call at position \<open>i\<close>: the function catches
  the errors of its request, so its promise is always fulfilled. \<open>release\<close> is the
  \<open>finally\<close> block, after which the call is over; \<open>catch\<close> is the \<open>catch\<close> block.
\<close>

definition sendSlackNotification :: "notice \<Rightarrow> nat \<Rightarrow> ('t, 'r) scheduler \<Rightarrow> ('t, 'r) scheduler" where
  "sendSlackNotification n i s = s\<lparr>notices := notices s @ [n], pending := (pending s)[i := AwaitNotify]\<rparr>"

definition release :: "nat \<Rightarrow> ('t, 'r) scheduler \<Rightarrow> ('t, 'r) scheduler" where
  "release i s = s\<lparr>isRunning := False, pending := take i (pending s) @ drop (Suc i) (pending s)\<rparr>"

definition catch :: "error \<Rightarrow> nat \<Rightarrow> ('t, 'r) scheduler \<Rightarrow> ('t, 'r) scheduler" where
  "catch e i s = sendSlackNotification (Failure (message e)) i (print (Failed (message e)) s)"

text \<open>
  \<open>runCrawlJob\<close> from its call to \<open>await fetchMovements(today, today)\<close>: the test of the
  flag, its assignment, and the call of \<open>fetchMovements\<close>. \<open>getTodayString\<close> and
  \<open>console.log\<close>, between the assignment and the \<open>try\<close>, do not throw.
\<close>

definition runCrawlJob :: "('t, 'r) scheduler \<Rightarrow> ('t, 'r) scheduler" where
  "runCrawlJob s =
     (if isRunning s then print AlreadyRunning s
      else (print Started (s\<lparr>isRunning := True\<rparr>))
             \<lparr>fetches := Suc (fetches s), pending := pending s @ [AwaitFetch]\<rparr>)"

text \<open>
  \<open>runCrawlJob\<close> from the settlement of \<open>fetchMovements\<close>, rejected with an error or
  fulfilled with the movements, to its next \<open>await\<close> or its end. \<open>insertMovements\<close> runs
  with the faults of the storage; \<open>stats_fault\<close> says whether \<open>getStats\<close> throws. The
  movements are given as the values that \<open>insert.run\<close> binds for them.
\<close>

definition fetch_settled ::
  "('t \<Rightarrow> bool) \<Rightarrow> nat \<Rightarrow> error + ('t::linorder, 'r) movement list \<Rightarrow> ('t, 'r) faults \<Rightarrow> string option \<Rightarrow>
     ('t, 'r) scheduler \<Rightarrow> ('t, 'r) scheduler" where
  "fetch_settled is_today i outcome fault stats_fault s =
     (case outcome of
        Inl e \<Rightarrow> catch e i s
      | Inr movements \<Rightarrow>
          (let s1 = print (Collected (length movements)) s
           in case (if movements \<noteq> [] then insertMovements fault movements (store s1)
                    else (Inr 0, store s1)) of
                (Inl e, d) \<Rightarrow> catch e i (s1\<lparr>store := d\<rparr>)
              | (Inr inserted, d) \<Rightarrow>
                  (let s2 = (if movements \<noteq> [] then print (Stored inserted) (s1\<lparr>store := d\<rparr>)
                             else s1)
                   in case stats_fault of
                        Some msg \<Rightarrow> catch (Error msg) i s2
                      | None \<Rightarrow>
                          (let st = getStats is_today (rows (store s2));
                               s3 = print (Status st) s2
                           in if inserted > 0
                              then sendSlackNotification
                                     (Success (length movements) inserted (currentlyParked st)) i s3
                              else release i s3))))"

text \<open>
  The events, and the run of the module on a sequence of them. The settlement of a
  promise that no suspended call awaits does not occur: such an event leaves the state
  as it is.
\<close>

datatype ('t, 'r) event =
  Trigger
  | FetchSettled nat "error + ('t, 'r) movement list" "('t, 'r) faults" "string option"
  | NotificationSettled nat

fun step :: "('t \<Rightarrow> bool) \<Rightarrow> ('t::linorder, 'r) event \<Rightarrow> ('t, 'r) scheduler \<Rightarrow> ('t, 'r) scheduler" where
  "step is_today Trigger s = runCrawlJob s"
| "step is_today (FetchSettled i outcome fault stats_fault) s =
     (if i < length (pending s) \<and> pending s ! i = AwaitFetch
      then fetch_settled is_today i outcome fault stats_fault s else s)"
| "step is_today (NotificationSettled i) s =
     (if i < length (pending s) \<and> pending s ! i = AwaitNotify then release i s else s)"

fun run :: "('t \<Rightarrow> bool) \<Rightarrow> ('t::linorder, 'r) event list \<Rightarrow> ('t, 'r) scheduler \<Rightarrow> ('t, 'r) scheduler" where
  "run is_today [] s = s"
| "run is_today (e # es) s = run is_today es (step is_today e s)"

text \<open>
  Single flight: while the flag is set exactly one call is suspended, and none otherwise.
\<close>

definition single_flight :: "('t, 'r) scheduler \<Rightarrow> bool" where
  "single_flight s = (if isRunning s then length (pending s) = 1 else pending s = [])"

section \<open>Theorems: status taxonomy\<close>

lemmas categorize_defs = categorizeStatus_def falsy_def list_includes_def

text \<open>
  Claim C4, as the spec states it, says that an unknown status code is mapped to \<open>none\<close>.
  The code maps a non-empty code that is in no list to \<open>other\<close>: here the code \<open>SOLD\<close>,
  which is not a key of \<open>RESTORATION_STATUS\<close>.
\<close>

theorem categorizeStatus_unknown_counterexample:
  "''SOLD'' \<notin> set (map fst RESTORATION_STATUS) \<and> categorizeStatus (Some ''SOLD'') = ''other'' \<and>
   categorizeStatus (Some ''SOLD'') \<noteq> ''none''"
  by (simp add: categorize_defs RESTORATION_STATUS_def)

text \<open>
  Claim C4, amended: \<open>categorizeStatus\<close> is a function of the status code alone (it has no
  error branch); \<open>null\<close> and the empty string are mapped to \<open>none\<close>; the twenty-three codes
  of the two generations are mapped, in the order of the table, to the buckets listed (all
  of them among pending, working, completed, outbound\_waiting and done); every other
  non-empty code is mapped to \<open>other\<close>.
\<close>

theorem categorizeStatus_table:
  "categorizeStatus None = ''none'' \<and> categorizeStatus (Some []) = ''none'' \<and>
   map (\<lambda>c. categorizeStatus (Some c)) (map fst RESTORATION_STATUS) =
     [''pending'', ''pending'', ''pending'', ''pending'', ''pending'', ''working'', ''working'',
      ''completed'', ''completed'', ''outbound_waiting'', ''outbound_waiting'', ''done'', ''done'',
      ''pending'', ''pending'', ''pending'', ''pending'', ''pending'', ''completed'',
      ''outbound_waiting'', ''outbound_waiting'', ''outbound_waiting'', ''done''] \<and>
   (c \<noteq> [] \<and> c \<notin> set (map fst RESTORATION_STATUS) \<longrightarrow> categorizeStatus (Some c) = ''other'')"
  by (simp add: categorize_defs RESTORATION_STATUS_def)

text \<open>Witness for C4: the amended claim at the unknown code \<open>SOLD\<close>.\<close>

theorem categorizeStatus_table_witness:
  "''SOLD'' \<noteq> [] \<and> ''SOLD'' \<notin> set (map fst RESTORATION_STATUS) \<and>
   categorizeStatus (Some ''SOLD'') = ''other''"
  using categorizeStatus_table [of "''SOLD''"] by (simp add: RESTORATION_STATUS_def)

section \<open>Theorems: event store\<close>

lemma row_key_new_row [simp]: "row_key (new_row i m) = movement_key m"
  by (simp add: row_key_def movement_key_def new_row_def)

lemma insert_Diff_insert: "a \<notin> B \<Longrightarrow> insert a (A - insert a B) = insert a A - B"
  by blast

lemma insertMany_success:
  "insertMany f ms k d = (Inr n, d') \<Longrightarrow>
     \<exists>new. rows d' = rows d @ new \<and> n = k + length new \<and> distinct (map row_key new) \<and>
       row_key ` set new = movement_key ` set ms - row_key ` set (rows d)"
proof (induction ms arbitrary: k d)
  case Nil
  then show ?case by simp
next
  case (Cons m ms)
  show ?case
  proof (cases "f d (Insert m)")
    case (Some msg)
    with Cons.prems show ?thesis by (simp add: insert_run_def)
  next
    case None
    show ?thesis
    proof (cases "conflicts (rows d) m")
      case True
      with None Cons.prems have "insertMany f ms k (d\<lparr>seq := Suc (seq d)\<rparr>) = (Inr n, d')"
        by (simp add: insert_run_def)
      from Cons.IH [OF this] obtain new where new: "rows d' = rows d @ new" "n = k + length new"
        "distinct (map row_key new)"
        "row_key ` set new = movement_key ` set ms - row_key ` set (rows d)" by auto
      from True have "movement_key m \<in> row_key ` set (rows d)"
        by (auto simp: conflicts_def intro: rev_image_eqI)
      then have "movement_key ` set (m # ms) - row_key ` set (rows d) =
          movement_key ` set ms - row_key ` set (rows d)"
        by (simp add: insert_Diff_if)
      with new have "rows d' = rows d @ new \<and> n = k + length new \<and>
          distinct (map row_key new) \<and>
          row_key ` set new = movement_key ` set (m # ms) - row_key ` set (rows d)"
        by (simp only: simp_thms)
      then show ?thesis by (rule exI)
    next
      case False
      let ?d1 = "d\<lparr>rows := rows d @ [new_row (Suc (seq d)) m], seq := Suc (seq d)\<rparr>"
      from False None Cons.prems have "insertMany f ms (k + 1) ?d1 = (Inr n, d')"
        by (simp add: insert_run_def)
      from Cons.IH [OF this] obtain new where new: "rows d' = rows ?d1 @ new"
        "n = k + 1 + length new" "distinct (map row_key new)"
        "row_key ` set new = movement_key ` set ms - row_key ` set (rows ?d1)" by blast
      from False have nk: "movement_key m \<notin> row_key ` set (rows d)"
        by (auto simp: conflicts_def)
      let ?new = "new_row (Suc (seq d)) m # new"
      have "rows d' = rows d @ ?new" using new by simp
      moreover have "n = k + length ?new" using new by simp
      moreover have "distinct (map row_key ?new)"
      proof -
        have "movement_key m \<notin> row_key ` set new" unfolding new(4) by simp
        with new(3) show ?thesis by simp
      qed
      moreover have "row_key ` set ?new = movement_key ` set (m # ms) - row_key ` set (rows d)"
      proof -
        have "row_key ` set ?new = insert (movement_key m) (row_key ` set new)" by simp
        also have "\<dots> = insert (movement_key m)
            (movement_key ` set ms - insert (movement_key m) (row_key ` set (rows d)))"
          using new(4) by simp
        also have "\<dots> = movement_key ` set (m # ms) - row_key ` set (rows d)"
          unfolding list.set image_insert using nk by (rule insert_Diff_insert)
        finally show ?thesis .
      qed
      ultimately show ?thesis by blast
    qed
  qed
qed

lemma insertMany_all_conflict:
  "\<forall>m \<in> set ms. conflicts (rows d) m \<Longrightarrow>
     (fst (insertMany g ms k d) = Inr k \<and> rows (snd (insertMany g ms k d)) = rows d) \<or>
     isl (fst (insertMany g ms k d))"
proof (induction ms arbitrary: k d)
  case Nil
  then show ?case by simp
next
  case (Cons m ms)
  show ?case
  proof (cases "g d (Insert m)")
    case (Some msg)
    then show ?thesis by (simp add: insert_run_def)
  next
    case None
    from Cons.prems have "\<forall>m \<in> set ms. conflicts (rows (d\<lparr>seq := Suc (seq d)\<rparr>)) m" by simp
    from Cons.IH [OF this, of k] None Cons.prems show ?thesis
      by (simp add: insert_run_def)
  qed
qed

lemma insertMany_always_fault:
  "\<exists>m \<in> set ms. \<forall>s. f s (Insert m) \<noteq> None \<Longrightarrow> isl (fst (insertMany f ms k d))"
proof (induction ms arbitrary: k d)
  case Nil
  then show ?case by simp
next
  case (Cons m ms)
  show ?case
  proof (cases "f d (Insert m)")
    case (Some msg)
    then show ?thesis by (simp add: insert_run_def)
  next
    case None
    from Cons.prems obtain m' where m': "m' \<in> set (m # ms)" "\<forall>s. f s (Insert m') \<noteq> None"
      by blast
    from m'(2) have "f d (Insert m') \<noteq> None" by (rule spec)
    with None have "m' \<noteq> m" by auto
    with m' have "\<exists>m \<in> set ms. \<forall>s. f s (Insert m) \<noteq> None" by auto
    from Cons.IH [OF this] None show ?thesis
      by (simp add: insert_run_def)
  qed
qed

lemma transaction_rollback: "fst (transaction f body d) = Inl e \<Longrightarrow> snd (transaction f body d) = d"
  by (auto simp: transaction_def split: option.splits prod.splits sum.splits)

lemma transaction_success:
  "transaction f body d = (Inr v, d') \<Longrightarrow> body d = (Inr v, d')"
  by (auto simp: transaction_def split: option.splits prod.splits sum.splits)

lemma transaction_body_fails:
  "isl (fst (body d)) \<Longrightarrow> isl (fst (transaction f body d)) \<and> snd (transaction f body d) = d"
  by (auto simp: transaction_def split: option.splits prod.splits sum.splits)

lemma transaction_no_fault: "transaction no_fault body d = (case body d of (Inl e, d') \<Rightarrow> (Inl e, d) | (Inr v, d') \<Rightarrow> (Inr v, d'))"
  by (auto simp: transaction_def no_fault_def split: option.splits prod.splits sum.splits)

lemma insertMany_no_fault: "\<exists>n d'. insertMany no_fault ms k d = (Inr n, d')"
  by (induction ms arbitrary: k d) (auto simp: insert_run_def no_fault_def)

lemma keys_after:
  assumes "insertMany f ms k d = (Inr n, d')"
  shows "\<forall>m \<in> set ms. conflicts (rows d') m"
proof -
  from insertMany_success [OF assms] obtain new where new: "rows d' = rows d @ new"
    "row_key ` set new = movement_key ` set ms - row_key ` set (rows d)" by blast
  then have sub: "movement_key ` set ms \<subseteq> row_key ` set (rows d')" by auto
  show ?thesis
  proof
    fix m assume "m \<in> set ms"
    with sub have "movement_key m \<in> row_key ` set (rows d')" by blast
    then obtain r where "r \<in> set (rows d')" "movement_key m = row_key r" by (rule imageE)
    then show "conflicts (rows d') m" unfolding conflicts_def by auto
  qed
qed

lemma transaction_fst_snd:
  "fst (transaction f body d) = Inr v \<Longrightarrow>
     fst (body d) = Inr v \<and> snd (transaction f body d) = snd (body d)"
  by (auto simp: transaction_def split: option.splits prod.splits sum.splits)

lemma second_call:
  assumes "insertMovements f ms d = (Inr n, d')"
  shows "rows (snd (insertMovements g ms d')) = rows d'"
    and "fst (insertMovements g ms d') = Inr 0 \<or> isl (fst (insertMovements g ms d'))"
    and "fst (insertMovements no_fault ms d') = Inr 0"
proof -
  from assms have "insertMany f ms 0 d = (Inr n, d')"
    unfolding insertMovements_def by (rule transaction_success)
  then have c: "\<forall>m \<in> set ms. conflicts (rows d') m" by (rule keys_after)
  have ac: "(fst (insertMany h ms 0 d') = Inr 0 \<and> rows (snd (insertMany h ms 0 d')) = rows d') \<or>
     isl (fst (insertMany h ms 0 d'))" for h
    using c by (rule insertMany_all_conflict)
  have r: "fst (insertMovements h ms d') = Inr 0 \<and> rows (snd (insertMovements h ms d')) = rows d'"
    if v: "fst (insertMovements h ms d') = Inr v" for h v
  proof -
    from v have t: "fst (transaction h (insertMany h ms 0) d') = Inr v"
      unfolding insertMovements_def .
    note ts = transaction_fst_snd [OF t]
    from ts have "\<not> isl (fst (insertMany h ms 0 d'))" by simp
    with ac [of h] have z: "fst (insertMany h ms 0 d') = Inr 0"
      "rows (snd (insertMany h ms 0 d')) = rows d'" by blast+
    from z(1) ts have "v = 0" by simp
    with v z(2) ts show ?thesis unfolding insertMovements_def by simp
  qed
  show "rows (snd (insertMovements g ms d')) = rows d'"
  proof (cases "fst (insertMovements g ms d')")
    case (Inl e)
    then have "snd (insertMovements g ms d') = d'"
      unfolding insertMovements_def by (rule transaction_rollback)
    then show ?thesis by simp
  next
    case (Inr v)
    from r [OF this] show ?thesis by simp
  qed
  show "fst (insertMovements g ms d') = Inr 0 \<or> isl (fst (insertMovements g ms d'))"
  proof (cases "fst (insertMovements g ms d')")
    case (Inl e)
    then show ?thesis by simp
  next
    case (Inr v)
    from r [OF this] show ?thesis by simp
  qed
  obtain k d2 where "insertMany no_fault ms 0 d' = (Inr k, d2)"
    using insertMany_no_fault by blast
  then have "fst (insertMovements no_fault ms d') = Inr k"
    by (simp add: insertMovements_def transaction_no_fault)
  from r [OF this] show "fst (insertMovements no_fault ms d') = Inr 0" by simp
qed

lemma insertMovements_rows:
  "\<exists>new. rows (snd (insertMovements f ms d)) = rows d @ new \<and>
     (distinct (map row_key (rows d)) \<longrightarrow> distinct (map row_key (rows (snd (insertMovements f ms d)))))"
proof (cases "fst (insertMovements f ms d)")
  case (Inl e)
  then have "snd (insertMovements f ms d) = d"
    unfolding insertMovements_def by (rule transaction_rollback)
  then show ?thesis by simp
next
  case (Inr n)
  obtain d' where d': "snd (insertMovements f ms d) = d'" by simp
  with Inr have "insertMovements f ms d = (Inr n, d')" by (simp add: prod_eq_iff)
  then have "insertMany f ms 0 d = (Inr n, d')"
    unfolding insertMovements_def by (rule transaction_success)
  from insertMany_success [OF this] obtain new where new: "rows d' = rows d @ new"
    "distinct (map row_key new)"
    "row_key ` set new = movement_key ` set ms - row_key ` set (rows d)" by blast
  have "row_key ` set (rows d) \<inter> row_key ` set new = {}"
    unfolding new(3) by blast
  with new(1,2) have "distinct (map row_key (rows d)) \<longrightarrow> distinct (map row_key (rows d'))"
    by simp
  with new(1) show ?thesis unfolding d' by blast
qed

lemma latest_iff:
  "(p, t) \<in> set (latest rs) \<longleftrightarrow>
     (\<exists>r \<in> set rs. plate_number r = p \<and> movement_type r = ENTRY) \<and>
     t = Max (set (map movement_time (filter (\<lambda>r. plate_number r = p \<and> movement_type r = ENTRY) rs)))"
proof -
  have eq: "filter (\<lambda>r. plate_number r = p) (filter (\<lambda>r. movement_type r = ENTRY) rs) =
        filter (\<lambda>r. plate_number r = p \<and> movement_type r = ENTRY) rs" for p
    by (simp add: conj_commute)
  show ?thesis
    unfolding latest_def Let_def eq by auto
qed

lemma parked_rows_iff:
  "v \<in> set (parked_rows rs) \<longleftrightarrow>
     v \<in> set rs \<and> movement_type v = ENTRY \<and>
     movement_time v =
       Max (set (map movement_time
         (filter (\<lambda>r. plate_number r = plate_number v \<and> movement_type r = ENTRY) rs))) \<and>
     \<not> (\<exists>v2 \<in> set rs. plate_number v2 = plate_number v \<and> movement_type v2 = EXIT \<and>
           movement_time v2 > movement_time v)"
proof -
  have "v \<in> set [v. v \<leftarrow> rs, l \<leftarrow> latest rs, plate_number v = fst l \<and> movement_time v = snd l]
      \<longleftrightarrow> v \<in> set rs \<and> (plate_number v, movement_time v) \<in> set (latest rs)"
    by force
  then show ?thesis
    unfolding parked_rows_def by (auto simp: latest_iff)
qed

lemma parked_plate_iff:
  "P \<in> plate_number ` set (parked_rows rs) \<longleftrightarrow> spec_currently_parked rs P"
proof -
  let ?es = "filter (\<lambda>r. plate_number r = P \<and> movement_type r = ENTRY) rs"
  let ?ts = "map movement_time ?es"
  show ?thesis
  proof (cases "?es = []")
    case True
    then have "\<not> (\<exists>v \<in> set rs. plate_number v = P \<and> movement_type v = ENTRY)"
      by (auto simp: filter_empty_conv)
    with True show ?thesis
      by (auto simp: spec_currently_parked_def spec_lastEntry_def parked_rows_iff)
  next
    case False
    then have "set ?ts \<noteq> {}" unfolding set_empty map_is_Nil_conv .
    then have "Max (set ?ts) \<in> set ?ts" by (intro Max_in) simp_all
    then have "\<exists>v \<in> set ?es. movement_time v = Max (set ?ts)" by force
    then obtain v where v: "v \<in> set rs" "plate_number v = P" "movement_type v = ENTRY"
      "movement_time v = Max (set ?ts)" by auto
    from False have le: "spec_lastEntry rs P = Some (Max (set ?ts))"
      by (simp add: spec_lastEntry_def)
    show ?thesis
    proof
      assume "P \<in> plate_number ` set (parked_rows rs)"
      then obtain w where "w \<in> set (parked_rows rs)" "plate_number w = P" by auto
      then show "spec_currently_parked rs P"
        unfolding spec_currently_parked_def le by (auto simp: parked_rows_iff)
    next
      assume "spec_currently_parked rs P"
      then have "v \<in> set (parked_rows rs)"
        unfolding spec_currently_parked_def le using v by (auto simp: parked_rows_iff)
      with v show "P \<in> plate_number ` set (parked_rows rs)" by force
    qed
  qed
qed

lemma sorted_desc: "sorted_wrt (\<ge>) (map f (rev (sort_key f xs)))"
proof -
  have "sorted (map f (sort_key f xs))" by simp
  then show ?thesis
    by (simp add: rev_map [symmetric] sorted_wrt_rev)
qed

text \<open>
  Claim C1: for every event log and every plate \<open>P\<close>, the result of \<open>getParkedVehicles\<close>
  has a row of \<open>P\<close> if and only if \<open>P\<close> has an entry event and no exit event of \<open>P\<close> is
  later than its latest entry; and the result is in descending order of entry time.
\<close>

theorem getParkedVehicles_derivation:
  "(P \<in> plate_number ` set (getParkedVehicles rs)) = spec_currently_parked rs P \<and>
   sorted_wrt (\<ge>) (map movement_time (getParkedVehicles rs))"
  unfolding getParkedVehicles_def using parked_plate_iff [of P rs] sorted_desc by simp

lemma store_after_distinct:
  "distinct (map row_key (rows d)) \<Longrightarrow> distinct (map row_key (rows (store_after calls d)))"
proof (induction calls arbitrary: d)
  case Nil
  then show ?case by simp
next
  case (Cons c calls)
  obtain f ms where c: "c = (f, ms)" by (cases c)
  from insertMovements_rows [of f ms d] Cons.prems
  have "distinct (map row_key (rows (snd (insertMovements f ms d))))" by blast
  then show ?case unfolding c by (simp add: Cons.IH)
qed

text \<open>
  Claim C2: appending a batch a second time, after a first call that returned, inserts
  nothing: on a storage without faults it returns 0, and on any storage it returns 0 or
  throws, and in both cases the stored rows and so the result of \<open>getParkedVehicles\<close> are
  unchanged. After every history of calls, from the empty table, no two stored rows share
  the triple of plate, time and type. A call only appends rows: the stored rows are kept
  as they are, a duplicate being dropped without an error.
\<close>

theorem insertMovements_idempotent:
  fixes d :: "('t::linorder, 'r) db"
  shows
  "fst (insertMovements no_fault ms (snd (insertMovements no_fault ms d))) = Inr 0 \<and>
   rows (snd (insertMovements no_fault ms (snd (insertMovements no_fault ms d)))) =
     rows (snd (insertMovements no_fault ms d)) \<and>
   (insertMovements f ms d = (Inr n, d') \<longrightarrow>
      fst (insertMovements no_fault ms d') = Inr 0 \<and>
      rows (snd (insertMovements g ms d')) = rows d' \<and>
      (fst (insertMovements g ms d') = Inr 0 \<or> isl (fst (insertMovements g ms d'))) \<and>
      getParkedVehicles (rows (snd (insertMovements g ms d'))) = getParkedVehicles (rows d')) \<and>
   distinct (map row_key (rows (store_after calls (initializeDb :: ('t, 'r) db)))) \<and>
   prefix (rows d) (rows (snd (insertMovements f ms d)))"
proof -
  obtain k d1 where first: "insertMany no_fault ms 0 d = (Inr k, d1)"
    using insertMany_no_fault by blast
  then have f1: "insertMovements no_fault ms d = (Inr k, d1)"
    by (simp add: insertMovements_def transaction_no_fault)
  then have d1: "snd (insertMovements no_fault ms d) = d1" by simp
  have a: "fst (insertMovements no_fault ms (snd (insertMovements no_fault ms d))) = Inr 0 \<and>
     rows (snd (insertMovements no_fault ms (snd (insertMovements no_fault ms d)))) =
       rows (snd (insertMovements no_fault ms d))"
    unfolding d1 using second_call(1,3) [OF f1] by simp
  have b: "insertMovements f ms d = (Inr n, d') \<longrightarrow>
      fst (insertMovements no_fault ms d') = Inr 0 \<and>
      rows (snd (insertMovements g ms d')) = rows d' \<and>
      (fst (insertMovements g ms d') = Inr 0 \<or> isl (fst (insertMovements g ms d'))) \<and>
      getParkedVehicles (rows (snd (insertMovements g ms d'))) = getParkedVehicles (rows d')"
  proof
    assume h: "insertMovements f ms d = (Inr n, d')"
    from second_call(1) [OF h, of g] have s: "rows (snd (insertMovements g ms d')) = rows d'" .
    show "fst (insertMovements no_fault ms d') = Inr 0 \<and>
      rows (snd (insertMovements g ms d')) = rows d' \<and>
      (fst (insertMovements g ms d') = Inr 0 \<or> isl (fst (insertMovements g ms d'))) \<and>
      getParkedVehicles (rows (snd (insertMovements g ms d'))) = getParkedVehicles (rows d')"
      using second_call(2,3) [OF h] s by simp
  qed
  have c: "distinct (map row_key (rows (store_after calls (initializeDb :: ('t, 'r) db))))"
    by (rule store_after_distinct) (simp add: initializeDb_def)
  from insertMovements_rows [of f ms d]
  have e: "prefix (rows d) (rows (snd (insertMovements f ms d)))"
    unfolding prefix_def by blast
  from a b c e show ?thesis by (simp only: simp_thms)
qed

lemmas store_defs = insertMovements_def transaction_def insert_run_def no_fault_def
  conflicts_def row_key_def movement_key_def new_row_def initializeDb_def or_null_def

text \<open>
  Witness for C2: one entry event appended twice to the empty store. The second call
  returns 0 and leaves the one row; only the AUTOINCREMENT counter has advanced.
\<close>

theorem insertMovements_idempotent_witness:
  "insertMovements no_fault [entry_9] initializeDb =
     (Inr 1, \<lparr>rows = [new_row 1 entry_9], seq = 1\<rparr>) \<and>
   insertMovements no_fault [entry_9] \<lparr>rows = [new_row 1 entry_9], seq = 1\<rparr> =
     (Inr 0, \<lparr>rows = [new_row 1 entry_9], seq = 2\<rparr>) \<and>
   getParkedVehicles
     (rows (snd (insertMovements no_fault [entry_9] \<lparr>rows = [new_row 1 entry_9], seq = 1\<rparr>))) =
     getParkedVehicles [new_row 1 entry_9]"
proof -
  have h: "insertMovements no_fault [entry_9] initializeDb =
      (Inr 1, \<lparr>rows = [new_row 1 entry_9], seq = 1\<rparr>)"
    by (simp add: store_defs)
  have k: "insertMovements no_fault [entry_9] \<lparr>rows = [new_row 1 entry_9], seq = 1\<rparr> =
     (Inr 0, \<lparr>rows = [new_row 1 entry_9], seq = 2\<rparr>)"
    by (simp add: store_defs)
  from insertMovements_idempotent
    [of "[entry_9]" initializeDb no_fault 1 "\<lparr>rows = [new_row 1 entry_9], seq = 1\<rparr>" no_fault] h
  have "getParkedVehicles
     (rows (snd (insertMovements no_fault [entry_9] \<lparr>rows = [new_row 1 entry_9], seq = 1\<rparr>))) =
     getParkedVehicles (rows \<lparr>rows = [new_row 1 entry_9], seq = 1 :: nat\<rparr>)"
    by blast
  with h k show ?thesis by simp
qed

text \<open>
  Claim C9: when \<open>insertMovements\<close> throws, the store is the one before the call; when
  the statement storing some event of the batch fails, the call throws and the store is
  unchanged; when the call returns, it has appended one row for every triple of the batch
  that was not stored, and it returns their number.
\<close>

theorem insertMovements_atomic:
  "(fst (insertMovements f ms d) = Inl e \<longrightarrow> snd (insertMovements f ms d) = d) \<and>
   ((\<exists>m \<in> set ms. \<forall>s. f s (Insert m) \<noteq> None) \<longrightarrow>
      isl (fst (insertMovements f ms d)) \<and> snd (insertMovements f ms d) = d) \<and>
   (insertMovements f ms d = (Inr n, d') \<longrightarrow>
      (\<exists>new. rows d' = rows d @ new \<and> length new = n \<and> distinct (map row_key new) \<and>
         row_key ` set new = movement_key ` set ms - row_key ` set (rows d)) \<and>
      n = card (movement_key ` set ms - row_key ` set (rows d)))"
proof -
  have a: "fst (insertMovements f ms d) = Inl e \<longrightarrow> snd (insertMovements f ms d) = d"
    unfolding insertMovements_def using transaction_rollback by blast
  have b: "(\<exists>m \<in> set ms. \<forall>s. f s (Insert m) \<noteq> None) \<longrightarrow>
      isl (fst (insertMovements f ms d)) \<and> snd (insertMovements f ms d) = d"
  proof
    assume "\<exists>m \<in> set ms. \<forall>s. f s (Insert m) \<noteq> None"
    then have "isl (fst (insertMany f ms 0 d))" by (rule insertMany_always_fault)
    then show "isl (fst (insertMovements f ms d)) \<and> snd (insertMovements f ms d) = d"
      unfolding insertMovements_def by (rule transaction_body_fails)
  qed
  have c: "insertMovements f ms d = (Inr n, d') \<longrightarrow>
      (\<exists>new. rows d' = rows d @ new \<and> length new = n \<and> distinct (map row_key new) \<and>
         row_key ` set new = movement_key ` set ms - row_key ` set (rows d)) \<and>
      n = card (movement_key ` set ms - row_key ` set (rows d))"
  proof
    assume "insertMovements f ms d = (Inr n, d')"
    then have "insertMany f ms 0 d = (Inr n, d')"
      unfolding insertMovements_def by (rule transaction_success)
    from insertMany_success [OF this] obtain new where new: "rows d' = rows d @ new"
      "n = 0 + length new" "distinct (map row_key new)"
      "row_key ` set new = movement_key ` set ms - row_key ` set (rows d)" by blast
    from new(3) have "card (row_key ` set new) = length new"
      by (metis distinct_card length_map set_map)
    with new(2,4) have "n = card (movement_key ` set ms - row_key ` set (rows d))" by simp
    moreover from new have "\<exists>new. rows d' = rows d @ new \<and> length new = n \<and>
        distinct (map row_key new) \<and>
        row_key ` set new = movement_key ` set ms - row_key ` set (rows d)" by auto
    ultimately show "(\<exists>new. rows d' = rows d @ new \<and> length new = n \<and> distinct (map row_key new) \<and>
         row_key ` set new = movement_key ` set ms - row_key ` set (rows d)) \<and>
      n = card (movement_key ` set ms - row_key ` set (rows d))" by (rule conjI [rotated])
  qed
  from a b c show ?thesis by (simp only: simp_thms)
qed

text \<open>
  Witness for C9: on the storage \<open>disk_full\<close> the batch of the entry and the exit throws
  and leaves the empty store empty, the entry included; on a storage without faults the
  batch with the entry twice and the exit once returns 2 (the skipped duplicate has used
  the id 2).
\<close>

theorem insertMovements_atomic_witness:
  "(\<exists>m \<in> set [entry_9, exit_18]. \<forall>s. disk_full s (Insert m) \<noteq> None) \<and>
   insertMovements disk_full [entry_9, exit_18] initializeDb =
     (Inl (Error ''disk full''), initializeDb) \<and>
   insertMovements no_fault [entry_9, entry_9, exit_18] initializeDb =
     (Inr 2, \<lparr>rows = [new_row 1 entry_9, new_row 3 exit_18], seq = 3\<rparr>) \<and>
   card (movement_key ` set [entry_9, entry_9, exit_18] -
         row_key ` set (rows (initializeDb :: (nat, unit) db))) = 2"
proof -
  let ?d = "initializeDb :: (nat, unit) db"
  have ne: "entry_9 \<noteq> exit_18" by (simp add: entry_9_def exit_18_def)
  have h1: "\<exists>m \<in> set [entry_9, exit_18]. \<forall>s. disk_full s (Insert m) \<noteq> None"
    by (simp add: disk_full_def)
  have h2: "fst (insertMovements disk_full [entry_9, exit_18] ?d) = Inl (Error ''disk full'')"
    using ne by (simp add: store_defs disk_full_def)
  have h3: "insertMovements no_fault [entry_9, entry_9, exit_18] ?d =
      (Inr 2, \<lparr>rows = [new_row 1 entry_9, new_row 3 exit_18], seq = 3\<rparr>)"
    using ne by (simp add: store_defs entry_9_def exit_18_def)
  from insertMovements_atomic [of disk_full "[entry_9, exit_18]" ?d] h1
  have "snd (insertMovements disk_full [entry_9, exit_18] ?d) = ?d" by blast
  with h2 have r2: "insertMovements disk_full [entry_9, exit_18] ?d =
      (Inl (Error ''disk full''), ?d)" by (simp add: prod_eq_iff)
  from insertMovements_atomic [of no_fault "[entry_9, entry_9, exit_18]" ?d _ 2
      "\<lparr>rows = [new_row 1 entry_9, new_row 3 exit_18], seq = 3\<rparr>"] h3
  have "2 = card (movement_key ` set [entry_9, entry_9, exit_18] - row_key ` set (rows ?d))"
    by blast
  with h1 r2 h3 show ?thesis by simp
qed

section \<open>Theorems: status resolver\<close>

lemma carNoToCarNum_Some:
  "carNoToCarNum cars k = Some p \<Longrightarrow> \<exists>c \<in> set cars. c_no c = k \<and> c_carnum c = p"
  unfolding carNoToCarNum_def
  by (induction cars rule: rev_induct) (auto split: if_splits)

lemma add_entries_other:
  "\<forall>r \<in> set rs. c2n (r_c_no r) \<noteq> Some p \<Longrightarrow> add_entries c2n failed rs m p = m p"
  unfolding add_entries_def
proof (induction rs rule: rev_induct)
  case Nil
  then show ?case by simp
next
  case (snoc r rs)
  then show ?case by (auto simp: truthy_def falsy_def split: option.splits)
qed

lemma add_missing_eq:
  "add_missing cars m p =
     (case m p of Some e \<Rightarrow> Some e
      | None \<Rightarrow> if p \<in> c_carnum ` set cars then Some no_record_entry else None)"
  unfolding add_missing_def
proof (induction cars rule: rev_induct)
  case Nil
  then show ?case by (simp split: option.splits)
next
  case (snoc c cars)
  then show ?case by (auto split: option.splits if_splits)
qed

lemma select_cars_sub:
  "c \<in> set (select_cars tbl carNums) \<Longrightarrow>
     c \<in> set tbl \<and> c_carnum c \<in> set carNums \<and> c_del_yn c = ''N''"
  by (auto simp: select_cars_def Let_def)

lemma group_eq:
  "p \<in> set carNums \<Longrightarrow>
     filter (\<lambda>c. c_carnum c = p) (filter (\<lambda>c. c_carnum c \<in> set carNums \<and> c_del_yn c = ''N'') tbl) =
     filter (\<lambda>c. c_carnum c = p \<and> c_del_yn c = ''N'') tbl"
  by (induction tbl) auto

lemma select_cars_has:
  assumes "p \<in> set carNums" "has_vehicle_identity db p"
  shows "\<exists>c \<in> set (select_cars (car_table db) carNums). c_carnum c = p"
proof -
  let ?g = "filter (\<lambda>c. c_carnum c = p \<and> c_del_yn c = ''N'') (car_table db)"
  from assms(2) have "?g \<noteq> []"
    by (auto simp: has_vehicle_identity_def filter_empty_conv)
  then have "set (map c_no ?g) \<noteq> {}" unfolding set_empty map_is_Nil_conv .
  then have "Max (set (map c_no ?g)) \<in> set (map c_no ?g)" by (intro Max_in) simp_all
  then obtain c where c: "c \<in> set ?g" "c_no c = Max (set (map c_no ?g))" by force
  then have live: "c \<in> set (car_table db)" "c_carnum c = p" "c_del_yn c = ''N''" by auto
  let ?live = "filter (\<lambda>c. c_carnum c \<in> set carNums \<and> c_del_yn c = ''N'') (car_table db)"
  have cl: "c \<in> set ?live" using live assms(1) by simp
  then have "p \<in> set (remdups (map c_carnum ?live))" using live by force
  moreover have "c_no c = Max (set (map c_no (filter (\<lambda>c. c_carnum c = p) ?live)))"
    unfolding group_eq [OF assms(1)] by (rule c(2))
  ultimately have "c_no c \<in> set (map (\<lambda>p. Max (set (map c_no (filter (\<lambda>c. c_carnum c = p) ?live))))
                    (remdups (map c_carnum ?live)))" by force
  with cl have "c \<in> set (select_cars (car_table db) carNums)"
    unfolding select_cars_def Let_def by simp
  with live show ?thesis by blast
qed

lemma select_cars_latest:
  assumes pk: "distinct (map c_no (car_table db))"
    and c: "c \<in> set (select_cars (car_table db) carNums)"
  shows "c_no c = vehicle_identity db (c_carnum c)"
proof -
  let ?live = "filter (\<lambda>c. c_carnum c \<in> set carNums \<and> c_del_yn c = ''N'') (car_table db)"
  from c have cl: "c \<in> set ?live" by (simp add: select_cars_def Let_def)
  from c obtain q where q: "q \<in> set (map c_carnum ?live)"
    "c_no c = Max (set (map c_no (filter (\<lambda>c. c_carnum c = q) ?live)))"
    by (auto simp: select_cars_def Let_def)
  from q(1) have qn: "q \<in> set carNums" by auto
  let ?g = "filter (\<lambda>c. c_carnum c = q) ?live"
  from q(1) have "?g \<noteq> []" by (auto simp: filter_empty_conv)
  then have "set (map c_no ?g) \<noteq> {}" unfolding set_empty map_is_Nil_conv .
  then have "Max (set (map c_no ?g)) \<in> set (map c_no ?g)" by (intro Max_in) simp_all
  then obtain c' where c': "c' \<in> set ?g" "c_no c' = c_no c" using q(2) by force
  from c' cl have "c' \<in> set (car_table db)" "c \<in> set (car_table db)" by auto
  with pk c'(2) have "c' = c" by (metis distinct_map inj_onD)
  with c'(1) have cq: "c_carnum c = q" by simp
  have "c_no c = Max (set (map c_no (filter (\<lambda>c. c_carnum c = q \<and> c_del_yn c = ''N'')
      (car_table db))))"
    using q(2) unfolding group_eq [OF qn] .
  then show ?thesis unfolding vehicle_identity_def cq .
qed

lemma select_restorations_sub:
  "r \<in> set (select_restorations tbl carNos) \<Longrightarrow> r \<in> set tbl"
  by (auto simp: select_restorations_def Let_def)

lemma status_no_fault:
  "getRestorationStatusForVehicles no_lookup_fault db carNums =
     Inr (if carNums = [] \<or> select_cars (car_table db) carNums = [] then Map.empty
          else (let cars = select_cars (car_table db) carNums;
                    c2n = carNoToCarNum cars;
                    restorations = select_restorations (restoration_table db) (map c_no cars);
                    rNos = rNos_of c2n restorations;
                    failedRNos = (if rNos \<noteq> [] then select_failed (restoration_task_table db) rNos else [])
                in add_missing cars (add_entries c2n failedRNos restorations Map.empty)), [])"
  by (simp add: getRestorationStatusForVehicles_def status_try_def pool_execute_def
      no_lookup_fault_def Let_def)

lemma resolved_map_cases:
  fixes db carNums
  defines "cars \<equiv> select_cars (car_table db) carNums"
  defines "c2n \<equiv> carNoToCarNum cars"
  defines "restorations \<equiv> select_restorations (restoration_table db) (map c_no cars)"
  assumes m: "getRestorationStatusForVehicles no_lookup_fault db carNums = Inr (m, l)"
  shows "l = [] \<and> (\<exists>failed. m p =
     (case add_entries c2n failed restorations Map.empty p of
        Some e \<Rightarrow> Some e
      | None \<Rightarrow> if carNums \<noteq> [] \<and> p \<in> c_carnum ` set cars then Some no_record_entry else None))"
proof (cases "carNums = [] \<or> cars = []")
  case True
  with m have "m = Map.empty" "l = []"
    unfolding status_no_fault cars_def by auto
  moreover have "add_entries c2n [] restorations Map.empty p = None"
  proof (rule trans [OF add_entries_other])
    show "\<forall>r \<in> set restorations. c2n (r_c_no r) \<noteq> Some p"
    proof (cases "cars = []")
      case True
      then show ?thesis by (simp add: c2n_def carNoToCarNum_def)
    next
      case False
      with \<open>carNums = [] \<or> cars = []\<close> have "carNums = []" by simp
      then have "cars = []" by (simp add: cars_def select_cars_def)
      with False show ?thesis by simp
    qed
  qed simp
  moreover have "\<not> (carNums \<noteq> [] \<and> p \<in> c_carnum ` set cars)" using True by auto
  ultimately show ?thesis by (intro conjI exI [of _ "[]"]) simp_all
next
  case False
  let ?rNos = "rNos_of c2n restorations"
  let ?failed = "if ?rNos \<noteq> [] then select_failed (restoration_task_table db) ?rNos else []"
  from False m have "m = add_missing cars (add_entries c2n ?failed restorations Map.empty)"
    and l: "l = []"
    unfolding status_no_fault cars_def c2n_def restorations_def Let_def by simp_all
  then have "m p =
     (case add_entries c2n ?failed restorations Map.empty p of
        Some e \<Rightarrow> Some e
      | None \<Rightarrow> if carNums \<noteq> [] \<and> p \<in> c_carnum ` set cars then Some no_record_entry else None)"
    using False by (simp add: add_missing_eq)
  with l show ?thesis by blast
qed

text \<open>
  Claim C7: when the lookups succeed, \<open>getRestorationStatusForVehicles\<close> maps a requested
  plate that has a vehicle identity without a status record to the explicit entry (status
  code \<open>null\<close>, category \<open>none\<close>, no failed inspection), and a plate without a vehicle
  identity is absent from the map. The first part is stated for a car table whose key
  \<open>c_no\<close> is unique.
\<close>

theorem resolveStatus_absence_cases:
  "\<exists>m. getRestorationStatusForVehicles no_lookup_fault db carNums = Inr (m, []) \<and>
     (distinct (map c_no (car_table db)) \<and> p \<in> set carNums \<and> has_vehicle_identity db p \<and>
        \<not> has_status_record db p \<longrightarrow> m p = Some no_record_entry) \<and>
     (\<not> has_vehicle_identity db p \<longrightarrow> m p = None) \<and>
     statusCode no_record_entry = None \<and> category no_record_entry = ''none'' \<and>
     hasFail no_record_entry = False"
proof -
  let ?cars = "select_cars (car_table db) carNums"
  let ?c2n = "carNoToCarNum ?cars"
  let ?rs = "select_restorations (restoration_table db) (map c_no ?cars)"
  obtain m where m: "getRestorationStatusForVehicles no_lookup_fault db carNums = Inr (m, [])"
    unfolding status_no_fault by blast
  from resolved_map_cases [OF m, of p] obtain failed where mp: "m p =
     (case add_entries ?c2n failed ?rs Map.empty p of
        Some e \<Rightarrow> Some e
      | None \<Rightarrow> if carNums \<noteq> [] \<and> p \<in> c_carnum ` set ?cars then Some no_record_entry else None)"
    by blast
  have a: "m p = Some no_record_entry"
    if pk: "distinct (map c_no (car_table db))" and pin: "p \<in> set carNums"
      and idn: "has_vehicle_identity db p" and nos: "\<not> has_status_record db p"
  proof -
    have "\<forall>r \<in> set ?rs. ?c2n (r_c_no r) \<noteq> Some p"
    proof (intro ballI notI)
      fix r assume r: "r \<in> set ?rs" and "?c2n (r_c_no r) = Some p"
      then obtain c where c: "c \<in> set ?cars" "c_no c = r_c_no r" "c_carnum c = p"
        using carNoToCarNum_Some by blast
      from select_cars_latest [OF pk c(1)] c have "r_c_no r = vehicle_identity db p" by simp
      moreover from r have "r \<in> set (restoration_table db)" by (rule select_restorations_sub)
      ultimately have "has_status_record db p" unfolding has_status_record_def by blast
      with nos show False ..
    qed
    then have "add_entries ?c2n failed ?rs Map.empty p = None"
      by (simp add: add_entries_other)
    moreover from select_cars_has [OF pin idn] have "p \<in> c_carnum ` set ?cars" by force
    moreover from pin have "carNums \<noteq> []" by auto
    ultimately show ?thesis unfolding mp by simp
  qed
  have b: "m p = None" if nid: "\<not> has_vehicle_identity db p"
  proof -
    have no: "\<not> (\<exists>c \<in> set ?cars. c_carnum c = p)"
    proof
      assume "\<exists>c \<in> set ?cars. c_carnum c = p"
      then obtain c where "c \<in> set ?cars" "c_carnum c = p" by blast
      with select_cars_sub [of c "car_table db" carNums] have "has_vehicle_identity db p"
        unfolding has_vehicle_identity_def by blast
      with nid show False ..
    qed
    have "\<forall>r \<in> set ?rs. ?c2n (r_c_no r) \<noteq> Some p"
    proof (intro ballI notI)
      fix r assume "?c2n (r_c_no r) = Some p"
      then have "\<exists>c \<in> set ?cars. c_carnum c = p" using carNoToCarNum_Some by blast
      with no show False ..
    qed
    then have "add_entries ?c2n failed ?rs Map.empty p = None"
      by (simp add: add_entries_other)
    moreover from no have "p \<notin> c_carnum ` set ?cars" by auto
    ultimately show ?thesis unfolding mp by simp
  qed
  have c: "statusCode no_record_entry = None \<and> category no_record_entry = ''none'' \<and>
     hasFail no_record_entry = False"
    by (simp add: no_record_entry_def)
  from m a b c show ?thesis by blast
qed

text \<open>
  Witness for C7: in the store with one car and no restoration, the plate of the car has
  the explicit entry and another plate is absent.
\<close>

theorem resolveStatus_absence_cases_witness:
  "\<exists>m. getRestorationStatusForVehicles no_lookup_fault one_car_db [''12A3456'', ''99Z9999''] =
         Inr (m, []) \<and>
       m ''12A3456'' = Some no_record_entry \<and> m ''99Z9999'' = None"
proof -
  let ?ps = "[''12A3456'', ''99Z9999'']"
  have pk: "distinct (map c_no (car_table one_car_db))" by (simp add: one_car_db_def)
  have i1: "has_vehicle_identity one_car_db ''12A3456''"
    by (simp add: has_vehicle_identity_def one_car_db_def)
  have n1: "\<not> has_status_record one_car_db ''12A3456''"
    by (simp add: has_status_record_def one_car_db_def)
  have i2: "\<not> has_vehicle_identity one_car_db ''99Z9999''"
    by (simp add: has_vehicle_identity_def one_car_db_def)
  from resolveStatus_absence_cases [of one_car_db ?ps "''12A3456''"] pk i1 n1
  obtain m where m: "getRestorationStatusForVehicles no_lookup_fault one_car_db ?ps = Inr (m, [])"
    "m ''12A3456'' = Some no_record_entry" by auto
  from resolveStatus_absence_cases [of one_car_db ?ps "''99Z9999''"] i2
  obtain m' where m': "getRestorationStatusForVehicles no_lookup_fault one_car_db ?ps = Inr (m', [])"
    "m' ''99Z9999'' = None" by auto
  from m(1) m'(1) have "m' = m" by simp
  with m m'(2) show ?thesis by blast
qed

lemma never_throws:
  "\<exists>m l. getRestorationStatusForVehicles fault db carNums = Inr (m, l)"
  "\<exists>m l. getCurrentTasksForVehicles fault db carNums = Inr (m, l)"
  "\<exists>m l. getTaskStatistics fault db rNosArg = Inr (m, l)"
    apply (simp_all add: getRestorationStatusForVehicles_def getCurrentTasksForVehicles_def
      getTaskStatistics_def split: prod.splits sum.splits)
  done

lemma status_logs:
  assumes "carNums \<noteq> []"
  shows "fault 1 = Some msg \<Longrightarrow>
      getRestorationStatusForVehicles fault db carNums = Inr (Map.empty, [(LOG_STATUS_LOOKUP, msg)])"
    and "fault 1 = None \<Longrightarrow> select_cars (car_table db) carNums \<noteq> [] \<Longrightarrow> fault 2 = Some msg \<Longrightarrow>
      getRestorationStatusForVehicles fault db carNums = Inr (Map.empty, [(LOG_STATUS_LOOKUP, msg)])"
    and "fault 1 = None \<Longrightarrow> select_cars (car_table db) carNums \<noteq> [] \<Longrightarrow> fault 2 = None \<Longrightarrow>
      rNos_of (carNoToCarNum (select_cars (car_table db) carNums))
        (select_restorations (restoration_table db)
           (map c_no (select_cars (car_table db) carNums))) \<noteq> [] \<Longrightarrow>
      fault 3 = Some msg \<Longrightarrow>
      getRestorationStatusForVehicles fault db carNums = Inr (Map.empty, [(LOG_STATUS_LOOKUP, msg)])"
  using assms
  by (simp_all add: getRestorationStatusForVehicles_def status_try_def pool_execute_def
      message_def Let_def)

lemma rNos_restorations: "rNos_of c2n rs \<noteq> [] \<Longrightarrow> rs \<noteq> []"
  by (auto simp: rNos_of_def)

lemma tasks_logs:
  assumes "carNums \<noteq> []"
  shows "fault 1 = Some msg \<Longrightarrow>
      getCurrentTasksForVehicles fault db carNums = Inr (Map.empty, [(LOG_CURRENT_TASKS, msg)])"
    and "fault 1 = None \<Longrightarrow> select_cars (car_table db) carNums \<noteq> [] \<Longrightarrow> fault 2 = Some msg \<Longrightarrow>
      getCurrentTasksForVehicles fault db carNums = Inr (Map.empty, [(LOG_CURRENT_TASKS, msg)])"
    and "fault 1 = None \<Longrightarrow> select_cars (car_table db) carNums \<noteq> [] \<Longrightarrow> fault 2 = None \<Longrightarrow>
      rNos_of (carNoToCarNum (select_cars (car_table db) carNums))
        (select_restorations (restoration_table db)
           (map c_no (select_cars (car_table db) carNums))) \<noteq> [] \<Longrightarrow>
      fault 3 = Some msg \<Longrightarrow>
      getCurrentTasksForVehicles fault db carNums = Inr (Map.empty, [(LOG_CURRENT_TASKS, msg)])"
    and "fault 1 = None \<Longrightarrow> select_cars (car_table db) carNums \<noteq> [] \<Longrightarrow> fault 2 = None \<Longrightarrow>
      select_restorations (restoration_table db)
           (map c_no (select_cars (car_table db) carNums)) \<noteq> [] \<Longrightarrow>
      rNos_of (carNoToCarNum (select_cars (car_table db) carNums))
        (select_restorations (restoration_table db)
           (map c_no (select_cars (car_table db) carNums))) = [] \<Longrightarrow>
      getCurrentTasksForVehicles fault db carNums =
        Inr (Map.empty, [(LOG_CURRENT_TASKS, ''ER_PARSE_ERROR'')])"
  using assms rNos_restorations
  by (auto simp add: getCurrentTasksForVehicles_def tasks_try_def pool_execute_def
      message_def Let_def)

lemma statistics_logs:
  "rNosArg = Some ks \<Longrightarrow> ks \<noteq> [] \<Longrightarrow> fault 1 = Some msg \<Longrightarrow>
     getTaskStatistics fault db rNosArg = Inr (Map.empty, [(LOG_TASK_STATISTICS, msg)])"
  by (simp add: getTaskStatistics_def pool_execute_def message_def)

text \<open>
  Claim C8: whatever statements fail, \<open>getRestorationStatusForVehicles\<close>,
  \<open>getCurrentTasksForVehicles\<close> and \<open>getTaskStatistics\<close> return: they never throw. When
  a statement that a call sends fails (the first; the second, sent when the first gave a
  car; the third, sent when the second gave the restoration of a car with a plate; the
  one statement of \<open>getTaskStatistics\<close>, sent for a list that is not empty), the call
  returns the empty map and has logged its line with the message of the failure. The
  third statement of \<open>getCurrentTasksForVehicles\<close> also fails when it is sent with no
  restoration number, and is logged in the same way.
\<close>

theorem resolver_never_throws:
  "(\<exists>m l. getRestorationStatusForVehicles fault db carNums = Inr (m, l)) \<and>
   (\<exists>m l. getCurrentTasksForVehicles fault db carNums = Inr (m, l)) \<and>
   (\<exists>m l. getTaskStatistics fault db rNosArg = Inr (m, l)) \<and>
   (let cars = select_cars (car_table db) carNums;
        restorations = select_restorations (restoration_table db) (map c_no cars);
        rNos = rNos_of (carNoToCarNum cars) restorations
    in (carNums \<noteq> [] \<and> fault 1 = Some msg \<longrightarrow>
          getRestorationStatusForVehicles fault db carNums =
            Inr (Map.empty, [(LOG_STATUS_LOOKUP, msg)]) \<and>
          getCurrentTasksForVehicles fault db carNums =
            Inr (Map.empty, [(LOG_CURRENT_TASKS, msg)])) \<and>
       (carNums \<noteq> [] \<and> fault 1 = None \<and> cars \<noteq> [] \<and> fault 2 = Some msg \<longrightarrow>
          getRestorationStatusForVehicles fault db carNums =
            Inr (Map.empty, [(LOG_STATUS_LOOKUP, msg)]) \<and>
          getCurrentTasksForVehicles fault db carNums =
            Inr (Map.empty, [(LOG_CURRENT_TASKS, msg)])) \<and>
       (carNums \<noteq> [] \<and> fault 1 = None \<and> cars \<noteq> [] \<and> fault 2 = None \<and> rNos \<noteq> [] \<and>
        fault 3 = Some msg \<longrightarrow>
          getRestorationStatusForVehicles fault db carNums =
            Inr (Map.empty, [(LOG_STATUS_LOOKUP, msg)]) \<and>
          getCurrentTasksForVehicles fault db carNums =
            Inr (Map.empty, [(LOG_CURRENT_TASKS, msg)])) \<and>
       (carNums \<noteq> [] \<and> fault 1 = None \<and> cars \<noteq> [] \<and> fault 2 = None \<and>
        restorations \<noteq> [] \<and> rNos = [] \<longrightarrow>
          getCurrentTasksForVehicles fault db carNums =
            Inr (Map.empty, [(LOG_CURRENT_TASKS, ''ER_PARSE_ERROR'')]))) \<and>
   (rNosArg = Some ks \<and> ks \<noteq> [] \<and> fault 1 = Some msg \<longrightarrow>
      getTaskStatistics fault db rNosArg = Inr (Map.empty, [(LOG_TASK_STATISTICS, msg)]))"
  unfolding Let_def
proof (intro conjI impI)
  show "\<exists>m l. getRestorationStatusForVehicles fault db carNums = Inr (m, l)"
    "\<exists>m l. getCurrentTasksForVehicles fault db carNums = Inr (m, l)"
    "\<exists>m l. getTaskStatistics fault db rNosArg = Inr (m, l)"
    by (rule never_throws)+
qed (use rNos_restorations in \<open>auto simp: status_logs tasks_logs statistics_logs\<close>)

lemma example_lookup:
  "select_cars (car_table working_fail_db) [''12A3456''] \<noteq> []"
  "rNos_of (carNoToCarNum (select_cars (car_table working_fail_db) [''12A3456'']))
     (select_restorations (restoration_table working_fail_db)
        (map c_no (select_cars (car_table working_fail_db) [''12A3456'']))) \<noteq> []"
  by (simp_all add: working_fail_db_def null_status_db_def select_cars_def
      select_restorations_def rNos_of_def carNoToCarNum_def truthy_def falsy_def Let_def)

text \<open>
  Witness for C8: the store with one car, one restoration and one task, asked for the
  plate of the car, when its first, its second and its third statement time out.
\<close>

theorem resolver_never_throws_witness:
  "getRestorationStatusForVehicles (times_out 1) working_fail_db [''12A3456''] =
     Inr (Map.empty, [(LOG_STATUS_LOOKUP, ''ETIMEDOUT'')]) \<and>
   getCurrentTasksForVehicles (times_out 2) working_fail_db [''12A3456''] =
     Inr (Map.empty, [(LOG_CURRENT_TASKS, ''ETIMEDOUT'')]) \<and>
   getRestorationStatusForVehicles (times_out 3) working_fail_db [''12A3456''] =
     Inr (Map.empty, [(LOG_STATUS_LOOKUP, ''ETIMEDOUT'')]) \<and>
   getCurrentTasksForVehicles (times_out 3) working_fail_db [''12A3456''] =
     Inr (Map.empty, [(LOG_CURRENT_TASKS, ''ETIMEDOUT'')]) \<and>
   getTaskStatistics (times_out 1) working_fail_db (Some [1]) =
     Inr (Map.empty, [(LOG_TASK_STATISTICS, ''ETIMEDOUT'')])"
proof -
  have f: "times_out 1 1 = Some ''ETIMEDOUT''" "times_out 2 1 = None"
    "times_out 2 2 = Some ''ETIMEDOUT''" "times_out 3 1 = None" "times_out 3 2 = None"
    "times_out 3 3 = Some ''ETIMEDOUT''" "[''12A3456''] \<noteq> []" "[1 :: nat] \<noteq> []"
    by (simp_all add: times_out_def)
  note t1 = resolver_never_throws
    [of "times_out 1" working_fail_db "[''12A3456'']" "Some [1]" "''ETIMEDOUT''" "[1]",
     unfolded Let_def]
  note t2 = resolver_never_throws
    [of "times_out 2" working_fail_db "[''12A3456'']" "Some [1]" "''ETIMEDOUT''" "[1]",
     unfolded Let_def]
  note t3 = resolver_never_throws
    [of "times_out 3" working_fail_db "[''12A3456'']" "Some [1]" "''ETIMEDOUT''" "[1]",
     unfolded Let_def]
  from t1 f have a: "getRestorationStatusForVehicles (times_out 1) working_fail_db [''12A3456''] =
     Inr (Map.empty, [(LOG_STATUS_LOOKUP, ''ETIMEDOUT'')])"
    "getTaskStatistics (times_out 1) working_fail_db (Some [1]) =
     Inr (Map.empty, [(LOG_TASK_STATISTICS, ''ETIMEDOUT'')])" by blast+
  from t2 f example_lookup
  have b: "getCurrentTasksForVehicles (times_out 2) working_fail_db [''12A3456''] =
     Inr (Map.empty, [(LOG_CURRENT_TASKS, ''ETIMEDOUT'')])" by blast
  from t3 f example_lookup
  have c: "getRestorationStatusForVehicles (times_out 3) working_fail_db [''12A3456''] =
     Inr (Map.empty, [(LOG_STATUS_LOOKUP, ''ETIMEDOUT'')])"
   "getCurrentTasksForVehicles (times_out 3) working_fail_db [''12A3456''] =
     Inr (Map.empty, [(LOG_CURRENT_TASKS, ''ETIMEDOUT'')])" by blast+
  from a b c show ?thesis by (simp only: simp_thms)
qed










section \<open>Theorems: aggregate status report\<close>



lemma step_inherited:
  "inherited_property (loc_of v) \<Longrightarrow> locationStats_step rm stats v = stats"
  by (simp add: locationStats_step_def Let_def)



















section \<open>Theorems: provider session client\<close>













section \<open>Theorems: records with an unrecognised direction code\<close>

lemma includes_ENTRY: "str_includes ENTRY HANGUL_IP"
  by (simp add: str_includes_def ENTRY_def HANGUL_IP_def sublist_code)

lemma includes_EXIT: "str_includes EXIT HANGUL_CHUL"
  by (simp add: str_includes_def EXIT_def HANGUL_CHUL_def sublist_code)

lemma UNKNOWN_TYPE_neq: "UNKNOWN_TYPE \<noteq> ENTRY" "UNKNOWN_TYPE \<noteq> EXIT"
  by (simp_all add: UNKNOWN_TYPE_def ENTRY_def EXIT_def)

lemma parseMovementType_unrecognised:
  assumes "unrecognised status"
  shows "parseMovementType status = (if js_truthy status then status else JStr UNKNOWN_TYPE)"
    and "parseMovementType status \<noteq> JStr ENTRY"
    and "parseMovementType status \<noteq> JStr EXIT"
proof -
  show 1: "parseMovementType status = (if js_truthy status then status else JStr UNKNOWN_TYPE)"
    using assms by (simp add: parseMovementType_def unrecognised_def Let_def js_or_def)
  have "status \<noteq> JStr ENTRY" "status \<noteq> JStr EXIT"
    using assms includes_ENTRY includes_EXIT by (auto simp: unrecognised_def Let_def)
  then show "parseMovementType status \<noteq> JStr ENTRY" "parseMovementType status \<noteq> JStr EXIT"
    unfolding 1 by (simp_all add: UNKNOWN_TYPE_neq)
qed

lemma sql_text_unrecognised:
  assumes "unrecognised status" and "\<forall>n. num_text n \<noteq> ENTRY \<and> num_text n \<noteq> EXIT"
  shows "sql_text num_text (parseMovementType status) \<noteq> ENTRY \<and>
         sql_text num_text (parseMovementType status) \<noteq> EXIT"
proof -
  note p = parseMovementType_unrecognised [OF assms(1)]
  have "parseMovementType status = JStr UNKNOWN_TYPE \<or> parseMovementType status = status"
    by (simp add: p(1))
  then show ?thesis
  proof
    assume "parseMovementType status = JStr UNKNOWN_TYPE"
    then show ?thesis by (simp add: sql_text_def UNKNOWN_TYPE_neq)
  next
    assume q: "parseMovementType status = status"
    show ?thesis
    proof (cases status)
      case (JNum n)
      with assms(2) show ?thesis unfolding q by (simp add: sql_text_def)
    next
      case (JStr s)
      with p(2,3) show ?thesis unfolding q by (simp add: sql_text_def)
    qed (use q in \<open>simp_all add: sql_text_def ENTRY_def EXIT_def\<close>)
  qed
qed

lemma parse_item_kept:
  assumes "js_truthy (acPlate it)" and "dtTrnsDate it = JStr t"
    and "takeWhile (\<lambda>c. c \<noteq> CHR ''.'') t \<noteq> []"
  shows "\<exists>m. parse_item it = Inr (Some m) \<and>
             js_movementType m = parseMovementType (iInOutStatus it) \<and>
             js_plateNumber m = acPlate it \<and> js_rawData m = it"
proof -
  from assms(3) have t: "t \<noteq> []" by auto
  have tw: "CHR ''.'' \<notin> set t \<Longrightarrow> takeWhile (\<lambda>c. c \<noteq> CHR ''.'') t = t"
    by (auto simp: takeWhile_eq_all_conv)
  show ?thesis
    using assms t tw
    by (auto simp: parse_item_def js_or_def Let_def)
qed

lemma parse_items_mem:
  "parse_item it = Inr (Some m) \<Longrightarrow> it \<in> set items \<Longrightarrow> m \<in> set (fst (parse_items items))"
  by (induction items) (auto split: sum.splits option.splits)

lemma concat_map_filter_Nil:
  "(\<And>x. x \<in> set xs \<Longrightarrow> \<not> Q x \<Longrightarrow> h x = []) \<Longrightarrow>
     concat (map h (filter Q xs)) = concat (map h xs)"
  by (induction xs) auto

lemma latest_directional: "latest (filter directional rs) = latest rs"
proof -
  have "filter (\<lambda>r. movement_type r = ENTRY) (filter directional rs) =
        filter (\<lambda>r. movement_type r = ENTRY) rs"
    by (induction rs) (auto simp: directional_def)
  then show ?thesis by (simp add: latest_def)
qed

lemma parked_rows_directional:
  fixes rs :: "('t::linorder, 'r) row list"
  shows "parked_rows (filter directional rs) = parked_rows rs"
proof -
  let ?P = "\<lambda>rs v. movement_type v = ENTRY \<and>
     \<not> (\<exists>v2 \<in> set rs. plate_number v2 = plate_number v \<and> movement_type v2 = EXIT \<and>
           movement_time v2 > movement_time v)"
  let ?g = "\<lambda>v. concat (map (\<lambda>l. if plate_number v = fst l \<and> movement_time v = snd l then [v] else [])
                (latest rs))"
  have P: "?P (filter directional rs) = ?P rs"
    by (auto simp: directional_def fun_eq_iff)
  have "parked_rows (filter directional rs) =
        filter (?P rs) (concat (map ?g (filter directional rs)))"
    unfolding parked_rows_def latest_directional P ..
  also have "\<dots> = concat (map (\<lambda>v. filter (?P rs) (?g v)) (filter directional rs))"
    by (simp add: filter_concat comp_def)
  also have "\<dots> = concat (map (\<lambda>v. filter (?P rs) (?g v)) rs)"
  proof (rule concat_map_filter_Nil)
    fix x :: "('t, 'r) row" assume "\<not> directional x"
    then have "movement_type x \<noteq> ENTRY" by (simp add: directional_def)
    then have "set (filter (?P rs) (?g x)) = {}" by auto
    then show "filter (?P rs) (?g x) = []" unfolding set_empty .
  qed
  also have "\<dots> = filter (?P rs) (concat (map ?g rs))"
    by (simp add: filter_concat comp_def)
  also have "\<dots> = parked_rows rs"
    unfolding parked_rows_def ..
  finally show ?thesis .
qed

lemma parked_rows_snoc:
  "\<not> directional r \<Longrightarrow> parked_rows (rs @ [r]) = parked_rows rs"
  using parked_rows_directional [of "rs @ [r]"] parked_rows_directional [of rs] by simp

lemma single_insert_rows:
  "rows (snd (insertMovements f [b] d)) = rows d \<or>
   rows (snd (insertMovements f [b] d)) = rows d @ [new_row (Suc (seq d)) b]"
  by (auto simp: insertMovements_def transaction_def insert_run_def
      split: option.splits prod.splits sum.splits if_splits)

lemma single_insert_parked:
  assumes "movementType b \<noteq> ENTRY" "movementType b \<noteq> EXIT"
  shows "parked_rows (rows (snd (insertMovements f [b] d))) = parked_rows (rows d)"
proof -
  have "\<not> directional (new_row (Suc (seq d)) b)"
    using assms by (simp add: directional_def new_row_def)
  from parked_rows_snoc [OF this] single_insert_rows [of f b d] show ?thesis by auto
qed

lemma stored_after:
  assumes "insertMovements f ms d = (Inr n, d')" and "b \<in> set ms"
  shows "\<exists>r \<in> set (rows d'). row_key r = movement_key b"
proof -
  from assms(1) have "insertMany f ms 0 d = (Inr n, d')"
    unfolding insertMovements_def by (rule transaction_success)
  from keys_after [OF this] assms(2) show ?thesis by (auto simp: conflicts_def)
qed

lemma decimal_text_neq: "decimal_text n \<noteq> ENTRY \<and> decimal_text n \<noteq> EXIT"
proof -
  have "last (decimal_text n) = CHR ''0''" by (simp add: decimal_text_def)
  moreover have "last ENTRY \<noteq> CHR ''0''" "last EXIT \<noteq> CHR ''0''"
    by (simp_all add: ENTRY_def EXIT_def)
  ultimately show ?thesis by metis
qed

lemma code_2_unrecognised: "unrecognised (iInOutStatus code_2)"
  by (simp add: code_2_def unrecognised_def Let_def str_includes_def sublist_code
      HANGUL_IP_def HANGUL_CHUL_def toLowerCase_def)

text \<open>
  Claim C10: for a record of the provider whose direction code is unrecognised (its string is
  neither \<open>0\<close> nor \<open>1\<close> and matches none of the searches of \<open>parseMovementType\<close>),
  \<open>parseMovementType\<close> returns the status itself, or the unknown marker when the status is
  falsy, and never the entry or the exit word. When the record has a plate and a time
  (a string whose part before the first dot is not empty), \<open>parseMovements\<close> keeps it with
  that movement type; the type stored for it is neither the entry nor the exit word
  (the text that SQLite stores for a number being neither); after a call of
  \<open>insertMovements\<close> that returned, with the movement in its batch, a row with its key is
  in the table and is not among the parked vehicles; and storing the movement changes
  neither \<open>getParkedVehicles\<close>, nor \<open>getParkingCountByLocation\<close>, nor \<open>currentlyParked\<close> of
  \<open>getStats\<close>. In general the three results are those of the table without its rows that
  are not directional.
\<close>

theorem unrecognised_direction_not_counted:
  fixes d :: "('t::linorder, item) db" and time_value :: "string \<Rightarrow> 't"
    and rs :: "('u::linorder, 'r) row list"
  assumes u: "unrecognised (iInOutStatus it)"
    and nt: "\<forall>n. num_text n \<noteq> ENTRY \<and> num_text n \<noteq> EXIT"
  shows
    "parseMovementType (iInOutStatus it) =
       (if js_truthy (iInOutStatus it) then iInOutStatus it else JStr UNKNOWN_TYPE) \<and>
     parseMovementType (iInOutStatus it) \<noteq> JStr ENTRY \<and>
     parseMovementType (iInOutStatus it) \<noteq> JStr EXIT \<and>
     (js_truthy (acPlate it) \<and> dtTrnsDate it = JStr t \<and> takeWhile (\<lambda>c. c \<noteq> CHR ''.'') t \<noteq> [] \<longrightarrow>
        (\<exists>m. parse_item it = Inr (Some m) \<and>
             js_movementType m = parseMovementType (iInOutStatus it) \<and>
             (it \<in> set (items_of p) \<longrightarrow> m \<in> set (fst (parseMovements p))) \<and>
             movementType (bound num_text time_value m) \<noteq> ENTRY \<and>
             movementType (bound num_text time_value m) \<noteq> EXIT \<and>
             (bound num_text time_value m \<in> set ms \<and> insertMovements f ms d = (Inr n, d') \<longrightarrow>
                (\<exists>r \<in> set (rows d').
                    row_key r = movement_key (bound num_text time_value m) \<and> \<not> directional r \<and>
                    r \<notin> set (getParkedVehicles (rows d')))) \<and>
             getParkedVehicles (rows (snd (insertMovements f [bound num_text time_value m] d))) =
               getParkedVehicles (rows d) \<and>
             getParkingCountByLocation (rows (snd (insertMovements f [bound num_text time_value m] d))) =
               getParkingCountByLocation (rows d) \<and>
             currentlyParked (getStats is_today (rows (snd (insertMovements f [bound num_text time_value m] d)))) =
               currentlyParked (getStats is_today (rows d)))) \<and>
     getParkedVehicles (filter directional rs) = getParkedVehicles rs \<and>
     getParkingCountByLocation (filter directional rs) = getParkingCountByLocation rs \<and>
     currentlyParked (getStats is_today' (filter directional rs)) =
       currentlyParked (getStats is_today' rs)"
proof -
  note p = parseMovementType_unrecognised [OF u]
  have kept: "\<exists>m. parse_item it = Inr (Some m) \<and>
             js_movementType m = parseMovementType (iInOutStatus it) \<and>
             (it \<in> set (items_of p) \<longrightarrow> m \<in> set (fst (parseMovements p))) \<and>
             movementType (bound num_text time_value m) \<noteq> ENTRY \<and>
             movementType (bound num_text time_value m) \<noteq> EXIT \<and>
             (bound num_text time_value m \<in> set ms \<and> insertMovements f ms d = (Inr n, d') \<longrightarrow>
                (\<exists>r \<in> set (rows d').
                    row_key r = movement_key (bound num_text time_value m) \<and> \<not> directional r \<and>
                    r \<notin> set (getParkedVehicles (rows d')))) \<and>
             getParkedVehicles (rows (snd (insertMovements f [bound num_text time_value m] d))) =
               getParkedVehicles (rows d) \<and>
             getParkingCountByLocation (rows (snd (insertMovements f [bound num_text time_value m] d))) =
               getParkingCountByLocation (rows d) \<and>
             currentlyParked (getStats is_today (rows (snd (insertMovements f [bound num_text time_value m] d)))) =
               currentlyParked (getStats is_today (rows d))"
    if h: "js_truthy (acPlate it)" "dtTrnsDate it = JStr t" "takeWhile (\<lambda>c. c \<noteq> CHR ''.'') t \<noteq> []"
  proof -
    from parse_item_kept [OF h] obtain m where
      m: "parse_item it = Inr (Some m)" "js_movementType m = parseMovementType (iInOutStatus it)"
      by blast
    let ?b = "bound num_text time_value m"
    have mt: "movementType ?b = sql_text num_text (parseMovementType (iInOutStatus it))"
      by (simp add: bound_def m(2))
    from sql_text_unrecognised [OF u nt]
    have ne: "movementType ?b \<noteq> ENTRY" "movementType ?b \<noteq> EXIT"
      unfolding mt by simp_all
    have mem: "it \<in> set (items_of p) \<longrightarrow> m \<in> set (fst (parseMovements p))"
      unfolding parseMovements_def using parse_items_mem [OF m(1)] by blast
    have st: "\<exists>r \<in> set (rows d').
                row_key r = movement_key ?b \<and> \<not> directional r \<and>
                r \<notin> set (getParkedVehicles (rows d'))"
      if "?b \<in> set ms" "insertMovements f ms d = (Inr n, d')"
    proof -
      from stored_after [OF that(2) that(1)] obtain r where
        r: "r \<in> set (rows d')" "row_key r = movement_key ?b" by blast
      from r(2) ne have nd: "\<not> directional r"
        by (simp add: row_key_def movement_key_def directional_def)
      then have "r \<notin> set (parked_rows (rows d'))"
        by (simp add: parked_rows_iff directional_def)
      then have "r \<notin> set (getParkedVehicles (rows d'))"
        by (simp add: getParkedVehicles_def)
      with r nd show ?thesis by blast
    qed
    note sp = single_insert_parked [OF ne, of f d]
    have g1: "getParkedVehicles (rows (snd (insertMovements f [?b] d))) = getParkedVehicles (rows d)"
      unfolding getParkedVehicles_def sp ..
    have g2: "getParkingCountByLocation (rows (snd (insertMovements f [?b] d))) =
        getParkingCountByLocation (rows d)"
      unfolding getParkingCountByLocation_def sp ..
    have g3: "currentlyParked (getStats is_today (rows (snd (insertMovements f [?b] d)))) =
        currentlyParked (getStats is_today (rows d))"
      by (simp add: getStats_def sp)
    from m mem ne st g1 g2 g3 show ?thesis by blast
  qed
  have f1: "getParkedVehicles (filter directional rs) = getParkedVehicles rs"
    unfolding getParkedVehicles_def parked_rows_directional ..
  have f2: "getParkingCountByLocation (filter directional rs) = getParkingCountByLocation rs"
    unfolding getParkingCountByLocation_def parked_rows_directional ..
  have f3: "currentlyParked (getStats is_today' (filter directional rs)) =
       currentlyParked (getStats is_today' rs)"
    by (simp add: getStats_def parked_rows_directional)
  from p kept f1 f2 f3 show ?thesis by blast
qed

text \<open>
  Witness for C10: the record with the direction code \<open>2\<close> is parsed with the movement
  type \<open>2\<close> and stored in the empty table as its first row; no vehicle is parked.
\<close>

theorem unrecognised_direction_not_counted_witness:
  "unrecognised (iInOutStatus code_2) \<and>
   (\<forall>n. decimal_text n \<noteq> ENTRY \<and> decimal_text n \<noteq> EXIT) \<and>
   js_truthy (acPlate code_2) \<and> dtTrnsDate code_2 = JStr ''2025-12-22 17:31:21.0'' \<and>
   parseMovementType (iInOutStatus code_2) = JStr ''2'' \<and>
   parse_item code_2 = Inr (Some code_2_movement) \<and>
   insertMovements no_fault [bound decimal_text text_value code_2_movement] initializeDb =
     (Inr 1, \<lparr>rows = [new_row 1 (bound decimal_text text_value code_2_movement)], seq = 1\<rparr>) \<and>
   movement_type (new_row 1 (bound decimal_text text_value code_2_movement)) = ''2'' \<and>
   getParkedVehicles [new_row 1 (bound decimal_text text_value code_2_movement)] = [] \<and>
   getParkingCountByLocation [new_row 1 (bound decimal_text text_value code_2_movement)] = [] \<and>
   currentlyParked (getStats (\<lambda>t. True) [new_row 1 (bound decimal_text text_value code_2_movement)]) = 0"
proof -
  let ?b = "bound decimal_text text_value code_2_movement"
  have nt: "\<forall>n. decimal_text n \<noteq> ENTRY \<and> decimal_text n \<noteq> EXIT"
    using decimal_text_neq by blast
  have h: "js_truthy (acPlate code_2)" "dtTrnsDate code_2 = JStr ''2025-12-22 17:31:21.0''"
    "takeWhile (\<lambda>c. c \<noteq> CHR ''.'') ''2025-12-22 17:31:21.0'' \<noteq> []"
    by (simp_all add: code_2_def)
  have pm: "parseMovementType (JStr ''2'') = JStr ''2''"
    using parseMovementType_unrecognised(1) [OF code_2_unrecognised] by (simp add: code_2_def)
  have pi: "parse_item code_2 = Inr (Some code_2_movement)"
    by (simp add: parse_item_def code_2_movement_def Let_def pm code_2_def js_or_def)
  have ins: "insertMovements no_fault [?b] initializeDb =
      (Inr 1, \<lparr>rows = [new_row 1 ?b], seq = 1\<rparr>)"
    by (simp add: store_defs)
  have e: "parked_rows (rows (initializeDb :: (nat, item) db)) = []"
    by (simp add: parked_rows_def latest_def initializeDb_def)
  have mt: "movement_type (new_row 1 ?b) = ''2''"
    by (simp add: new_row_def bound_def code_2_movement_def sql_text_def)
  note th = unrecognised_direction_not_counted [OF code_2_unrecognised nt,
      where t = "''2025-12-22 17:31:21.0''" and f = no_fault
        and d = "initializeDb :: (nat, item) db" and time_value = text_value
        and is_today = "\<lambda>t. True" and p = "PArray []" and ms = "[]" and n = 0
        and d' = "initializeDb :: (nat, item) db" and rs = "[] :: (nat, item) row list"
        and is_today' = "\<lambda>t. True"]
  from th h pi have
    "getParkedVehicles (rows (snd (insertMovements no_fault [?b] initializeDb))) =
       getParkedVehicles (rows (initializeDb :: (nat, item) db))"
    "getParkingCountByLocation (rows (snd (insertMovements no_fault [?b] initializeDb))) =
       getParkingCountByLocation (rows (initializeDb :: (nat, item) db))"
    "currentlyParked (getStats (\<lambda>t. True) (rows (snd (insertMovements no_fault [?b] initializeDb)))) =
       currentlyParked (getStats (\<lambda>t. True) (rows (initializeDb :: (nat, item) db)))"
    by auto
  then have
    "getParkedVehicles [new_row 1 ?b] = []"
    "getParkingCountByLocation [new_row 1 ?b] = []"
    "currentlyParked (getStats (\<lambda>t. True) [new_row 1 ?b]) = 0"
    unfolding ins by (simp_all add: getParkedVehicles_def getParkingCountByLocation_def getStats_def e)
  with code_2_unrecognised nt h(1,2) pi ins mt show ?thesis
    by (simp add: code_2_def pm del: One_nat_def)
qed

section \<open>Theorems: ingestion job\<close>

lemma print_fields [simp]:
  "isRunning (print l s) = isRunning s" "pending (print l s) = pending s"
  "store (print l s) = store s" "fetches (print l s) = fetches s"
  "notices (print l s) = notices s"
  by (simp_all add: print_def)

lemma catch_fields [simp]:
  "isRunning (catch e i s) = isRunning s" "pending (catch e i s) = (pending s)[i := AwaitNotify]"
  "store (catch e i s) = store s" "fetches (catch e i s) = fetches s"
  by (simp_all add: catch_def sendSlackNotification_def)

lemma send_fields [simp]:
  "isRunning (sendSlackNotification n i s) = isRunning s"
  "pending (sendSlackNotification n i s) = (pending s)[i := AwaitNotify]"
  "store (sendSlackNotification n i s) = store s"
  "fetches (sendSlackNotification n i s) = fetches s"
  by (simp_all add: sendSlackNotification_def)

lemma release_fields [simp]:
  "isRunning (release i s) = False"
  "pending (release i s) = take i (pending s) @ drop (Suc i) (pending s)"
  "store (release i s) = store s" "fetches (release i s) = fetches s"
  by (simp_all add: release_def)

lemma fetch_settled_cases:
  "(isRunning (fetch_settled t i outcome fault sf s) = isRunning s \<and>
    pending (fetch_settled t i outcome fault sf s) = (pending s)[i := AwaitNotify]) \<or>
   (\<not> isRunning (fetch_settled t i outcome fault sf s) \<and>
    pending (fetch_settled t i outcome fault sf s) = take i (pending s) @ drop (Suc i) (pending s))"
  by (auto simp: fetch_settled_def Let_def split: sum.splits prod.splits option.splits if_splits)

lemma fetch_settled_fetches:
  "fetches (fetch_settled t i outcome fault sf s) = fetches s"
  by (auto simp: fetch_settled_def Let_def split: sum.splits prod.splits option.splits if_splits)

lemma step_single_flight: "single_flight s \<Longrightarrow> single_flight (step t e s)"
proof (cases e)
  case Trigger
  assume "single_flight s"
  then show ?thesis unfolding Trigger by (simp add: single_flight_def runCrawlJob_def)
next
  case (FetchSettled i outcome fault sf)
  assume a: "single_flight s"
  show ?thesis
  proof (cases "i < length (pending s) \<and> pending s ! i = AwaitFetch")
    case True
    with a have r: "isRunning s" "length (pending s) = 1" "i = 0"
      by (auto simp: single_flight_def split: if_splits)
    from fetch_settled_cases [of t i outcome fault sf s] r show ?thesis
      unfolding FetchSettled by (auto simp: single_flight_def True)
  next
    case False
    with a show ?thesis unfolding FetchSettled by auto
  qed
next
  case (NotificationSettled i)
  assume a: "single_flight s"
  show ?thesis
  proof (cases "i < length (pending s) \<and> pending s ! i = AwaitNotify")
    case True
    with a have r: "isRunning s" "length (pending s) = 1" "i = 0"
      by (auto simp: single_flight_def split: if_splits)
    then show ?thesis unfolding NotificationSettled by (simp add: single_flight_def True)
  next
    case False
    with a show ?thesis unfolding NotificationSettled by auto
  qed
qed

lemma run_single_flight: "single_flight s \<Longrightarrow> single_flight (run t es s)"
  by (induction es arbitrary: s) (simp_all add: step_single_flight)

lemma idle_single_flight: "single_flight (idle d)"
  by (simp add: single_flight_def idle_def)


lemma runCrawlJob_running: "isRunning s \<Longrightarrow> runCrawlJob s = print AlreadyRunning s"
  by (simp add: runCrawlJob_def)

lemma runCrawlJob_idle:
  "\<not> isRunning s \<Longrightarrow>
     isRunning (runCrawlJob s) \<and> fetches (runCrawlJob s) = Suc (fetches s) \<and>
     pending (runCrawlJob s) = pending s @ [AwaitFetch] \<and> store (runCrawlJob s) = store s"
  by (simp add: runCrawlJob_def)

lemma fetch_rejected:
  "pending s = [AwaitFetch] \<Longrightarrow>
     isRunning (step t (FetchSettled 0 (Inl e) fault sf) s) = isRunning s \<and>
     pending (step t (FetchSettled 0 (Inl e) fault sf) s) = [AwaitNotify] \<and>
     notices (step t (FetchSettled 0 (Inl e) fault sf) s) = notices s @ [Failure (message e)] \<and>
     store (step t (FetchSettled 0 (Inl e) fault sf) s) = store s"
  by (simp add: fetch_settled_def catch_def sendSlackNotification_def print_def)

lemma insert_throws:
  "pending s = [AwaitFetch] \<Longrightarrow> ms \<noteq> [] \<Longrightarrow> fst (insertMovements fault ms (store s)) = Inl e \<Longrightarrow>
     isRunning (step t (FetchSettled 0 (Inr ms) fault sf) s) = isRunning s \<and>
     pending (step t (FetchSettled 0 (Inr ms) fault sf) s) = [AwaitNotify] \<and>
     notices (step t (FetchSettled 0 (Inr ms) fault sf) s) = notices s @ [Failure (message e)] \<and>
     store (step t (FetchSettled 0 (Inr ms) fault sf) s) = store s"
proof -
  assume a: "pending s = [AwaitFetch]" "ms \<noteq> []" "fst (insertMovements fault ms (store s)) = Inl e"
  from a(3) have "snd (insertMovements fault ms (store s)) = store s"
    unfolding insertMovements_def by (rule transaction_rollback)
  with a(3) have "insertMovements fault ms (store s) = (Inl e, store s)"
    by (simp add: prod_eq_iff)
  with a(1,2) show ?thesis
    by (simp add: fetch_settled_def catch_def sendSlackNotification_def print_def)
qed

lemma settled_released:
  assumes "pending s = [AwaitFetch]"
  shows "\<not> isRunning (run t [FetchSettled 0 outcome fault sf, NotificationSettled 0] s) \<and>
         pending (run t [FetchSettled 0 outcome fault sf, NotificationSettled 0] s) = []"
  using fetch_settled_cases [of t 0 outcome fault sf s] assms by auto

text \<open>
  Claim C5: \<open>runCrawlJob\<close> is single-flight. In every state that the module reaches from the idle
  state, by any sequence of triggers and settlements, at most one call is in progress,
  and the flag is set exactly while one is. A call made while the flag is set prints a
  line and returns: it calls neither \<open>fetchMovements\<close> nor \<open>insertMovements\<close>, sends no
  notification and leaves no continuation (it is dropped, not queued). A call made while
  the flag is clear sets it and fetches. However the fetch of the call in progress
  settles, once the notification (if one was sent) has settled the flag is clear, no
  call is in progress, and the next trigger fetches again. When the fetch is rejected,
  or \<open>insertMovements\<close> throws, the failure is notified, the table is unchanged, and the
  flag is cleared when the notification has settled.
\<close>

theorem runCrawlJob_single_flight:
  fixes d :: "('t::linorder, 'r) db"
  assumes "s = run is_today es (idle d)"
  shows
    "(if isRunning s then length (pending s) = 1 else pending s = []) \<and>
     (isRunning s \<longrightarrow>
        step is_today Trigger s = print AlreadyRunning s \<and>
        fetches (step is_today Trigger s) = fetches s \<and>
        store (step is_today Trigger s) = store s \<and>
        pending (step is_today Trigger s) = pending s \<and>
        notices (step is_today Trigger s) = notices s) \<and>
     (\<not> isRunning s \<longrightarrow>
        isRunning (step is_today Trigger s) \<and>
        fetches (step is_today Trigger s) = Suc (fetches s) \<and>
        pending (step is_today Trigger s) = [AwaitFetch]) \<and>
     (pending s = [AwaitFetch] \<longrightarrow>
        \<not> isRunning (run is_today [FetchSettled 0 outcome fault sf, NotificationSettled 0] s) \<and>
        pending (run is_today [FetchSettled 0 outcome fault sf, NotificationSettled 0] s) = [] \<and>
        isRunning (run is_today [FetchSettled 0 outcome fault sf, NotificationSettled 0, Trigger] s) \<and>
        fetches (run is_today [FetchSettled 0 outcome fault sf, NotificationSettled 0, Trigger] s) =
          Suc (fetches s)) \<and>
     (pending s = [AwaitFetch] \<longrightarrow>
        isRunning (step is_today (FetchSettled 0 (Inl e) fault sf) s) \<and>
        pending (step is_today (FetchSettled 0 (Inl e) fault sf) s) = [AwaitNotify] \<and>
        notices (step is_today (FetchSettled 0 (Inl e) fault sf) s) =
          notices s @ [Failure (message e)]) \<and>
     (pending s = [AwaitFetch] \<and> ms \<noteq> [] \<and> fst (insertMovements fault ms (store s)) = Inl e \<longrightarrow>
        isRunning (step is_today (FetchSettled 0 (Inr ms) fault sf) s) \<and>
        pending (step is_today (FetchSettled 0 (Inr ms) fault sf) s) = [AwaitNotify] \<and>
        store (step is_today (FetchSettled 0 (Inr ms) fault sf) s) = store s \<and>
        notices (step is_today (FetchSettled 0 (Inr ms) fault sf) s) =
          notices s @ [Failure (message e)]) \<and>
     (pending s = [AwaitNotify] \<longrightarrow>
        \<not> isRunning (step is_today (NotificationSettled 0) s) \<and>
        pending (step is_today (NotificationSettled 0) s) = [])"
proof -
  have sf: "single_flight s"
    unfolding assms by (rule run_single_flight [OF idle_single_flight])
  then have inv: "if isRunning s then length (pending s) = 1 else pending s = []"
    by (simp add: single_flight_def)
  have run1: "\<not> isRunning s \<longrightarrow>
        isRunning (step is_today Trigger s) \<and>
        fetches (step is_today Trigger s) = Suc (fetches s) \<and>
        pending (step is_today Trigger s) = [AwaitFetch]"
    using inv runCrawlJob_idle [of s] by auto
  have running: "isRunning s" if "pending s = [AwaitFetch]"
    using inv that by (auto split: if_splits)
  have rel: "\<not> isRunning (run is_today [FetchSettled 0 outcome fault sf, NotificationSettled 0] s) \<and>
        pending (run is_today [FetchSettled 0 outcome fault sf, NotificationSettled 0] s) = [] \<and>
        isRunning (run is_today [FetchSettled 0 outcome fault sf, NotificationSettled 0, Trigger] s) \<and>
        fetches (run is_today [FetchSettled 0 outcome fault sf, NotificationSettled 0, Trigger] s) =
          Suc (fetches s)"
    if p: "pending s = [AwaitFetch]"
  proof -
    let ?s2 = "run is_today [FetchSettled 0 outcome fault sf, NotificationSettled 0] s"
    note r = settled_released [OF p, of is_today outcome fault sf]
    have f: "fetches ?s2 = fetches s"
      by (simp add: fetch_settled_fetches)
    have "run is_today [FetchSettled 0 outcome fault sf, NotificationSettled 0, Trigger] s =
        runCrawlJob ?s2" by simp
    with r runCrawlJob_idle [of ?s2] f show ?thesis by metis
  qed
  have rej: "isRunning (step is_today (FetchSettled 0 (Inl e) fault sf) s) \<and>
        pending (step is_today (FetchSettled 0 (Inl e) fault sf) s) = [AwaitNotify] \<and>
        notices (step is_today (FetchSettled 0 (Inl e) fault sf) s) =
          notices s @ [Failure (message e)]"
    if p: "pending s = [AwaitFetch]"
    using fetch_rejected [OF p, of is_today e fault sf] running [OF p] by simp
  have thr: "isRunning (step is_today (FetchSettled 0 (Inr ms) fault sf) s) \<and>
        pending (step is_today (FetchSettled 0 (Inr ms) fault sf) s) = [AwaitNotify] \<and>
        store (step is_today (FetchSettled 0 (Inr ms) fault sf) s) = store s \<and>
        notices (step is_today (FetchSettled 0 (Inr ms) fault sf) s) =
          notices s @ [Failure (message e)]"
    if p: "pending s = [AwaitFetch]" "ms \<noteq> []" "fst (insertMovements fault ms (store s)) = Inl e"
    using insert_throws [OF p, of is_today sf] running [OF p(1)] by simp
  have ntf: "pending s = [AwaitNotify] \<longrightarrow>
        \<not> isRunning (step is_today (NotificationSettled 0) s) \<and>
        pending (step is_today (NotificationSettled 0) s) = []"
    by simp
  have drop: "isRunning s \<longrightarrow>
        step is_today Trigger s = print AlreadyRunning s \<and>
        fetches (step is_today Trigger s) = fetches s \<and>
        store (step is_today Trigger s) = store s \<and>
        pending (step is_today Trigger s) = pending s \<and>
        notices (step is_today Trigger s) = notices s"
    by (simp add: runCrawlJob_running)
  from inv drop run1 rel rej thr ntf show ?thesis by blast
qed

text \<open>
  Witness for C5: after one trigger a call is in progress; a second trigger only prints
  its line; when the fetch is rejected the failure is notified and, once the notification
  has settled, the flag is clear; the next trigger fetches a second time.
\<close>

theorem runCrawlJob_single_flight_witness:
  "isRunning (run (\<lambda>t. True) [Trigger] (idle (initializeDb :: (nat, unit) db))) \<and>
   pending (run (\<lambda>t. True) [Trigger] (idle (initializeDb :: (nat, unit) db))) = [AwaitFetch] \<and>
   run (\<lambda>t. True) [Trigger, Trigger] (idle (initializeDb :: (nat, unit) db)) =
     \<lparr>isRunning = True, pending = [AwaitFetch], store = initializeDb, fetches = 1, notices = [],
      lines = [Started, AlreadyRunning]\<rparr> \<and>
   run (\<lambda>t. True)
       [Trigger, FetchSettled 0 (Inl (Error ''ECONNRESET'')) no_fault None]
       (idle (initializeDb :: (nat, unit) db)) =
     \<lparr>isRunning = True, pending = [AwaitNotify], store = initializeDb, fetches = 1,
      notices = [Failure ''ECONNRESET''], lines = [Started, Failed ''ECONNRESET'']\<rparr> \<and>
   run (\<lambda>t. True)
       [Trigger, FetchSettled 0 (Inl (Error ''ECONNRESET'')) no_fault None, NotificationSettled 0]
       (idle (initializeDb :: (nat, unit) db)) =
     \<lparr>isRunning = False, pending = [], store = initializeDb, fetches = 1,
      notices = [Failure ''ECONNRESET''], lines = [Started, Failed ''ECONNRESET'']\<rparr> \<and>
   fetches (run (\<lambda>t. True)
       [Trigger, FetchSettled 0 (Inl (Error ''ECONNRESET'')) no_fault None, NotificationSettled 0,
        Trigger]
       (idle (initializeDb :: (nat, unit) db))) = 2"
  using runCrawlJob_single_flight [of "run (\<lambda>t. True) [Trigger] (idle (initializeDb :: (nat, unit) db))"
      "\<lambda>t. True" "[Trigger]" "initializeDb :: (nat, unit) db"
      "Inl (Error ''ECONNRESET'')" no_fault None "Error ''ECONNRESET''" "[]"]
  by (simp add: idle_def runCrawlJob_def print_def fetch_settled_def catch_def
      sendSlackNotification_def release_def message_def del: One_nat_def)

end
